theory Spec2Isabelle
  imports Complex_Main "HOL-Library.Word" "HOL-Library.Multiset"
begin

section \<open>The Security Dashboard screen (frontend/app/security/home.tsx)\<close>

text \<open>
  The screen is a React component: eight state cells, one mount effect that starts
  \<open>initializeScreen\<close> and a 30000 ms interval running \<open>loadNearbyData\<close>, four
  asynchronous handlers and a render function. The embedding keeps the state cells in a
  record, writes every handler as a function from the record to the record, and collects
  what the handlers do to the outside (alerts, navigation, HTTP requests, clearing the
  session) in a timestamped list.

  Each handler is taken as one atomic step that completes at the instant it starts: the
  reply of the backend to a request issued at time \<open>t\<close> is read from an environment at
  \<open>t\<close>. Interleavings of two handlers at their \<open>await\<close> points are therefore outside
  the model. Console output is not part of the effect list.
\<close>

subsection \<open>Values received from the backend\<close>

text \<open>
  A JavaScript string is a sequence of UTF-16 code units. Property names and the literals
  of the program are ASCII and are kept as HOL strings.
\<close>

type_synonym jsstring = "16 word list"

definition ascii :: "string \<Rightarrow> jsstring" where
  "ascii cs = map of_char cs"

text \<open>
  \<open>response.data\<close> is typed \<open>any\<close>: whatever JSON the backend sent. Numbers are the
  values of the doubles that \<open>JSON.parse\<close> produces (never NaN; both zeros are \<open>0\<close>).
\<close>

datatype json =
    JNull
  | JBool bool
  | JNum real
  | JStr jsstring
  | JArr "json list"
  | JObj "(string \<times> json) list"

text \<open>JavaScript truthiness, as used by \<open>!x\<close>, \<open>x || y\<close>, \<open>x && y\<close> and \<open>x ? y : z\<close>.\<close>

fun truthy :: "json \<Rightarrow> bool" where
  "truthy JNull = False"
| "truthy (JBool b) = b"
| "truthy (JNum n) = (n \<noteq> 0)"
| "truthy (JStr s) = (s \<noteq> [])"
| "truthy (JArr xs) = True"
| "truthy (JObj kvs) = True"

text \<open>
  \<open>v.k\<close> for a value \<open>v\<close> that is not \<open>null\<close> and a key \<open>k\<close> other than the built-in
  properties of strings and arrays: \<open>None\<close> is \<open>undefined\<close>. On \<open>null\<close> the access
  throws a TypeError, which every use below handles before calling \<open>field\<close>.
\<close>

fun field :: "json \<Rightarrow> string \<Rightarrow> json option" where
  "field (JObj kvs) k = map_of kvs k"
| "field v k = None"

text \<open>\<open>v?.k\<close>: optional chaining yields \<open>undefined\<close> on \<open>null\<close>.\<close>

definition opt_field :: "json \<Rightarrow> string \<Rightarrow> json option" where
  "opt_field v k = (if v = JNull then None else field v k)"

text \<open>\<open>x || d\<close> where \<open>x\<close> may be \<open>undefined\<close>.\<close>

definition or_default :: "json option \<Rightarrow> json \<Rightarrow> json" where
  "or_default x d = (case x of None \<Rightarrow> d | Some v \<Rightarrow> if truthy v then v else d)"

text \<open>
  The outcome of an axios call: a response with a 2xx status resolves the promise with its
  body; any other status rejects it with an error carrying \<open>response.status\<close> and
  \<open>response.data\<close>; a timeout or a network failure rejects it with an error that has no
  \<open>response\<close>.
\<close>

datatype http_result =
    Ok json
  | HttpError nat json
  | NetworkError

text \<open>\<open>error?.response?.status\<close> of a rejection.\<close>

fun status :: "http_result \<Rightarrow> nat option" where
  "status (Ok d) = None"
| "status (HttpError st d) = Some st"
| "status NetworkError = None"

text \<open>
  \<open>Promise.all([reports, panics])\<close> resolves when both requests resolve, and otherwise
  rejects with the rejection that happens first. When both requests fail the flag says
  whether the one for the panics failed before the one for the reports.
\<close>

fun promise_all :: "http_result \<Rightarrow> http_result \<Rightarrow> bool \<Rightarrow> http_result + (json \<times> json)" where
  "promise_all (Ok rd) (Ok pd) first = Inr (rd, pd)"
| "promise_all (Ok rd) pe first = Inl pe"
| "promise_all re (Ok pd) first = Inl re"
| "promise_all re pe first = Inl (if first then pe else re)"

record backend =
  profile_reply :: "nat \<Rightarrow> http_result"
  location_reply :: "nat \<Rightarrow> http_result"
  reports_reply :: "nat \<Rightarrow> http_result"
  panics_reply :: "nat \<Rightarrow> http_result"
  panics_settles_first :: "nat \<Rightarrow> bool"
  search_reply :: "nat \<Rightarrow> jsstring \<Rightarrow> http_result"

subsection \<open>State and effects\<close>

text \<open>
  Requests are recorded by their path below \<open>BACKEND_URL\<close> and the bearer token of their
  \<open>Authorization\<close> header; \<open>RouterPush\<close> carries the value whose \<open>JSON.stringify\<close> is
  passed as the \<open>userData\<close> parameter.
\<close>

datatype effect =
    Alert string json
  | RouterReplace string
  | RouterPush string json
  | HttpGet string string
  | HttpPost string json string
  | ClearAuthData

text \<open>
  The first two fields are the device storage behind \<open>utils/auth\<close>, the next eight the
  \<open>useState\<close> cells, \<open>interval\<close> the due time of the running \<open>setInterval\<close> timer
  (\<open>None\<close> when there is none), \<open>now\<close> the clock in milliseconds.
\<close>

record app =
  authToken :: "string option"
  userRole :: "string option"
  teamLocation :: json
  nearbyReports :: json
  nearbyPanics :: json
  radiusKm :: json
  searchTerm :: jsstring
  loading :: bool
  searchLoading :: bool
  agentName :: jsstring
  interval :: "nat option"
  now :: nat
  effects :: "(nat \<times> effect) list"

text \<open>The component as React creates it: the initial values of the \<open>useState\<close> calls.\<close>

definition initial_app :: "string option \<Rightarrow> string option \<Rightarrow> nat \<Rightarrow> app" where
  "initial_app token role t =
     \<lparr> authToken = token, userRole = role,
       teamLocation = JNull, nearbyReports = JArr [], nearbyPanics = JArr [],
       radiusKm = JNum 10, searchTerm = [], loading = True, searchLoading = False,
       agentName = ascii ''Agent'', interval = None, now = t, effects = [] \<rparr>"

definition emit :: "effect \<Rightarrow> app \<Rightarrow> app" where
  "emit e s = s\<lparr>effects := effects s @ [(now s, e)]\<rparr>"

text \<open>
  Modelled from the spec: \<open>getAuthToken\<close> is imported from \<open>utils/auth\<close>, which is not
  among the sources. The spec describes the session token as an opaque string held in
  device-local storage, whose presence means logged in.
\<close>

definition getAuthToken :: "app \<Rightarrow> string option" where
  "getAuthToken s = authToken s"

text \<open>
  Modelled from the spec: \<open>getUserMetadata\<close> is imported from \<open>utils/auth\<close>, which is
  not among the sources. The spec describes the metadata as including a \<open>role\<close> field;
  the model returns that field, \<open>None\<close> when no role is stored.
\<close>

definition getUserMetadata :: "app \<Rightarrow> string option" where
  "getUserMetadata s = userRole s"

text \<open>
  Modelled from the spec: \<open>clearAuthData\<close> is imported from \<open>utils/auth\<close>, which is not
  among the sources. The spec describes it as clearing the local session state.
\<close>

definition clearAuthData :: "app \<Rightarrow> app" where
  "clearAuthData s = emit ClearAuthData (s\<lparr>authToken := None, userRole := None\<rparr>)"

text \<open>\<open>!token\<close>: a missing token and the empty string are both falsy.\<close>

definition no_token :: "string option \<Rightarrow> bool" where
  "no_token t = (case t of None \<Rightarrow> True | Some v \<Rightarrow> v = [])"

subsection \<open>The loaders\<close>

text \<open>\<open>full_name.split(' ')[0]\<close> of a string.\<close>

definition first_name :: "jsstring \<Rightarrow> jsstring" where
  "first_name n = takeWhile (\<lambda>c. c \<noteq> 0x20) n"

text \<open>
  A truthy \<open>full_name\<close> that is not a string has no \<open>split\<close>: the call throws, and the
  \<open>catch\<close> only logs, as it does for every rejection of the request.
\<close>

definition loadAgentProfile :: "backend \<Rightarrow> app \<Rightarrow> app" where
  "loadAgentProfile env s =
     (case getAuthToken s of
        None \<Rightarrow> s
      | Some token \<Rightarrow>
          if token = [] then s
          else
            let s1 = emit (HttpGet ''/api/user/profile'' token) s in
            (case profile_reply env (now s) of
               Ok d \<Rightarrow>
                 (case opt_field d ''full_name'' of
                    Some (JStr n) \<Rightarrow> if n \<noteq> [] then s1\<lparr>agentName := first_name n\<rparr> else s1
                  | _ \<Rightarrow> s1)
             | _ \<Rightarrow> s1))"

text \<open>
  \<open>setTeamLocation(response.data)\<close> runs before \<open>response.data.radius_km\<close> is read, so
  a \<open>null\<close> body sets the location and then throws; the \<open>catch\<close> finds no status.
\<close>

definition loadTeamLocation :: "backend \<Rightarrow> app \<Rightarrow> app" where
  "loadTeamLocation env s =
     (case getAuthToken s of
        None \<Rightarrow> s
      | Some token \<Rightarrow>
          if token = [] then s
          else
            let s1 = emit (HttpGet ''/api/security/team-location'' token) s in
            (case location_reply env (now s) of
               Ok d \<Rightarrow>
                 let s2 = s1\<lparr>teamLocation := d\<rparr> in
                 if d = JNull then s2
                 else s2\<lparr>radiusKm := or_default (field d ''radius_km'') (JNum 10)\<rparr>
             | e \<Rightarrow>
                 if status e = Some 401
                 then emit (RouterReplace ''/auth/login'') (clearAuthData s1)
                 else s1))"

definition loadNearbyData :: "backend \<Rightarrow> app \<Rightarrow> app" where
  "loadNearbyData env s =
     (case getAuthToken s of
        None \<Rightarrow> s
      | Some token \<Rightarrow>
          if token = [] then s
          else
            let s1 = emit (HttpGet ''/api/security/nearby-panics'' token)
                       (emit (HttpGet ''/api/security/nearby-reports'' token) s) in
            (case promise_all (reports_reply env (now s)) (panics_reply env (now s))
                    (panics_settles_first env (now s)) of
               Inr (rd, pd) \<Rightarrow>
                 s1\<lparr>nearbyReports := or_default (Some rd) (JArr []),
                    nearbyPanics := or_default (Some pd) (JArr [])\<rparr>
             | Inl e \<Rightarrow>
                 if status e = Some 401
                 then emit (RouterReplace ''/auth/login'') (clearAuthData s1)
                 else s1))"

subsection \<open>The session guard\<close>

definition initializeScreen :: "backend \<Rightarrow> app \<Rightarrow> app" where
  "initializeScreen env s =
     (let s0 = s\<lparr>loading := True\<rparr> in
      if no_token (getAuthToken s0) then emit (RouterReplace ''/auth/login'') s0
      else if getUserMetadata s0 \<noteq> Some ''security''
      then emit (RouterReplace ''/auth/login'')
             (emit (Alert ''Access Denied'' (JStr (ascii ''Security access required''))) s0)
      else (loadNearbyData env (loadTeamLocation env (loadAgentProfile env s0)))
             \<lparr>loading := False\<rparr>)"

subsection \<open>Mounting, the polling timer, unmounting\<close>

text \<open>
  The mount effect calls \<open>initializeScreen\<close> and \<open>setInterval(loadNearbyData, 30000)\<close>;
  its cleanup calls \<open>clearInterval\<close>. A running interval fires its callback at its due
  time and is then due again 30000 ms later.
\<close>

definition mount :: "backend \<Rightarrow> app \<Rightarrow> app" where
  "mount env s = (initializeScreen env s)\<lparr>interval := Some (now s + 30000)\<rparr>"

definition unmount :: "app \<Rightarrow> app" where
  "unmount s = s\<lparr>interval := None\<rparr>"

fun fire :: "backend \<Rightarrow> nat \<Rightarrow> app \<Rightarrow> app" where
  "fire env 0 s = s"
| "fire env (Suc n) s =
     (case interval s of
        None \<Rightarrow> s
      | Some due \<Rightarrow>
          fire env n ((loadNearbyData env (s\<lparr>now := due\<rparr>))\<lparr>interval := Some (due + 30000)\<rparr>))"

text \<open>The number of firings of an interval due at \<open>due\<close> up to and including \<open>target\<close>.\<close>

definition firings :: "nat \<Rightarrow> nat \<Rightarrow> nat" where
  "firings due target = (if due \<le> target then (target - due) div 30000 + 1 else 0)"

text \<open>\<open>d\<close> milliseconds pass: the callbacks that fall due run in order, each at its time.\<close>

definition elapse :: "backend \<Rightarrow> nat \<Rightarrow> app \<Rightarrow> app" where
  "elapse env d s =
     (let target = now s + d in
      case interval s of
        None \<Rightarrow> s\<lparr>now := target\<rparr>
      | Some due \<Rightarrow> (fire env (firings due target) s)\<lparr>now := target\<rparr>)"

subsection \<open>Search\<close>

text \<open>
  \<open>String.prototype.trim\<close> removes the code units of ECMAScript's WhiteSpace and
  LineTerminator productions from both ends.
\<close>

definition js_whitespace :: "16 word \<Rightarrow> bool" where
  "js_whitespace c =
     (c = 0x09 \<or> c = 0x0A \<or> c = 0x0B \<or> c = 0x0C \<or> c = 0x0D \<or> c = 0x20 \<or> c = 0xA0
      \<or> c = 0x1680 \<or> (0x2000 \<le> c \<and> c \<le> 0x200A) \<or> c = 0x2028 \<or> c = 0x2029
      \<or> c = 0x202F \<or> c = 0x205F \<or> c = 0x3000 \<or> c = 0xFEFF)"

definition js_trim :: "jsstring \<Rightarrow> jsstring" where
  "js_trim s = rev (dropWhile js_whitespace (rev (dropWhile js_whitespace s)))"

text \<open>
  The \<open>finally\<close> block resets \<open>searchLoading\<close> on every path behind the validation.
\<close>

definition handleSearch :: "backend \<Rightarrow> app \<Rightarrow> app" where
  "handleSearch env s =
     (if js_trim (searchTerm s) = []
      then emit (Alert ''Error'' (JStr (ascii ''Please enter phone or email''))) s
      else
        let s1 = s\<lparr>searchLoading := True\<rparr> in
        (case getAuthToken s1 of
           None \<Rightarrow> emit (RouterReplace ''/auth/login'') s1
         | Some token \<Rightarrow>
             if token = [] then emit (RouterReplace ''/auth/login'') s1
             else
               let s2 = emit (HttpPost ''/api/security/search-user''
                                (JObj [(''search_term'', JStr (js_trim (searchTerm s1)))]) token) s1 in
               (case search_reply env (now s) (js_trim (searchTerm s1)) of
                  Ok d \<Rightarrow> emit (RouterPush ''/security/user-track'' d) s2
                | HttpError st d \<Rightarrow>
                    if st = 401
                    then emit (RouterReplace ''/auth/login'')
                           (clearAuthData
                              (emit (Alert ''Session Expired'' (JStr (ascii ''Please login again''))) s2))
                    else emit (Alert ''Not Found''
                                 (or_default (opt_field d ''detail'') (JStr (ascii ''User not found'')))) s2
                | NetworkError \<Rightarrow>
                    emit (Alert ''Not Found'' (JStr (ascii ''User not found''))) s2))
        \<lparr>searchLoading := False\<rparr>)"

subsection \<open>Rendering\<close>

text \<open>
  A card stands for the list item it is built from. Building the card of a panic reads
  properties of the item, which throws on \<open>null\<close>; the card of a report also calls
  \<open>report.type.toUpperCase()\<close>, which throws unless \<open>type\<close> is a string. The card
  keeps the type as received; the screen shows it in upper case. What React does with a
  property value that is not a valid text child, the counts in the section headers, and
  the buttons that only navigate are not part of the view.
\<close>

datatype card =
    PanicCard "json option" "json option" "json option"
  | ReportCard "json option" jsstring json

definition panic_card :: "json \<Rightarrow> card option" where
  "panic_card p =
     (if p = JNull then None
      else Some (PanicCard (field p ''id'') (field p ''user_email'') (field p ''activated_at'')))"

definition report_card :: "json \<Rightarrow> card option" where
  "report_card r =
     (if r = JNull then None
      else (case field r ''type'' of
              Some (JStr ty) \<Rightarrow>
                Some (ReportCard (field r ''id'') ty
                        (or_default (field r ''caption'') (JStr (ascii ''No caption''))))
            | _ \<Rightarrow> None))"

datatype list_section = EmptyText | Cards "card list"

text \<open>
  \<open>xs.length === 0 ? <empty text> : xs.slice(0, 3).map(card)\<close> on a state cell of type
  \<open>any\<close>: only an array has both \<open>slice\<close> and \<open>map\<close>; \<open>None\<close> is a render that throws.
\<close>

definition section_of :: "(json \<Rightarrow> card option) \<Rightarrow> json \<Rightarrow> list_section option" where
  "section_of mk v =
     (case v of
        JArr xs \<Rightarrow> if length xs = 0 then Some EmptyText
                   else map_option Cards (those (map mk (take 3 xs)))
      | JStr cs \<Rightarrow> if length cs = 0 then Some EmptyText else None
      | JObj kvs \<Rightarrow> if map_of kvs ''length'' = Some (JNum 0) then Some EmptyText else None
      | _ \<Rightarrow> None)"

datatype subtitle = RadiusText json | NotSetText

record dashboard =
  warningBanner :: bool
  cardSubtitle :: subtitle
  searchValue :: jsstring
  searchDisabled :: bool
  panicsSection :: list_section
  reportsSection :: list_section

datatype view = LoadingView | Dashboard dashboard

definition banner_shown :: "json \<Rightarrow> bool" where
  "banner_shown t =
     (\<not> truthy t \<or> (field t ''latitude'' = Some (JNum 0) \<and> field t ''longitude'' = Some (JNum 0)))"

definition subtitle_of :: "json \<Rightarrow> json \<Rightarrow> subtitle" where
  "subtitle_of t r =
     (if truthy t \<and> field t ''latitude'' \<noteq> Some (JNum 0) then RadiusText r else NotSetText)"

definition render :: "app \<Rightarrow> view option" where
  "render s =
     (if loading s then Some LoadingView
      else
        (case section_of panic_card (nearbyPanics s) of
           None \<Rightarrow> None
         | Some ps \<Rightarrow>
             (case section_of report_card (nearbyReports s) of
                None \<Rightarrow> None
              | Some rs \<Rightarrow>
                  Some (Dashboard
                    \<lparr> warningBanner = banner_shown (teamLocation s),
                      cardSubtitle = subtitle_of (teamLocation s) (radiusKm s),
                      searchValue = searchTerm s,
                      searchDisabled = searchLoading s,
                      panicsSection = ps,
                      reportsSection = rs \<rparr>))))"

subsection \<open>Reading the effect list\<close>

definition is_request :: "effect \<Rightarrow> bool" where
  "is_request e = (case e of HttpGet p tok \<Rightarrow> True | HttpPost p b tok \<Rightarrow> True | _ \<Rightarrow> False)"

definition occurrences :: "effect \<Rightarrow> (nat \<times> effect) list \<Rightarrow> nat" where
  "occurrences e tr = length (filter (\<lambda>x. snd x = e) tr)"

text \<open>The times at which a GET of the given path was issued.\<close>

definition fetch_times :: "string \<Rightarrow> (nat \<times> effect) list \<Rightarrow> nat list" where
  "fetch_times path tr =
     map fst (filter (\<lambda>x. case snd x of HttpGet p tok \<Rightarrow> p = path | _ \<Rightarrow> False) tr)"

subsection \<open>A concrete backend and session\<close>

definition demo_panics :: "json list" where
  "demo_panics =
     [JObj [(''id'', JNum 1)], JObj [(''id'', JNum 2)], JObj [(''id'', JNum 3)], JObj [(''id'', JNum 4)]]"

definition demo_reports :: "json list" where
  "demo_reports =
     [JObj [(''id'', JNum 7), (''type'', JStr [0x76])],
      JObj [(''id'', JNum 8), (''type'', JStr [0x61])]]"

definition demo_location :: "real \<Rightarrow> real \<Rightarrow> real \<Rightarrow> json" where
  "demo_location la lo r =
     JObj [(''latitude'', JNum la), (''longitude'', JNum lo), (''radius_km'', JNum r)]"

definition demo_backend :: backend where
  "demo_backend =
     \<lparr> profile_reply = (\<lambda>t. Ok (JObj [(''full_name'', JStr [0x41, 0x20, 0x42])])),
       location_reply = (\<lambda>t. Ok (demo_location 0 5 0)),
       reports_reply = (\<lambda>t. Ok (JArr demo_reports)),
       panics_reply = (\<lambda>t. Ok (JArr demo_panics)),
       panics_settles_first = (\<lambda>t. False),
       search_reply = (\<lambda>t q. Ok (JObj [(''user_id'', JNum 9)])) \<rparr>"

definition demo_state :: app where
  "demo_state = (initial_app (Some ''tok'') (Some ''security'') 0)\<lparr>loading := False\<rparr>"

text \<open>A backend whose replies do not change over time.\<close>

definition constant_backend ::
  "http_result \<Rightarrow> http_result \<Rightarrow> http_result \<Rightarrow> http_result \<Rightarrow> bool \<Rightarrow> http_result \<Rightarrow> backend" where
  "constant_backend pr lo re pa first se =
     \<lparr> profile_reply = (\<lambda>t. pr), location_reply = (\<lambda>t. lo), reports_reply = (\<lambda>t. re),
       panics_reply = (\<lambda>t. pa), panics_settles_first = (\<lambda>t. first),
       search_reply = (\<lambda>t q. se) \<rparr>"

text \<open>Whether the promise of a request resolves.\<close>

fun resolved :: "http_result \<Rightarrow> bool" where
  "resolved (Ok d) = True"
| "resolved e = False"

text \<open>
  The \<open>error?.response?.status\<close> that the \<open>catch\<close> of \<open>loadNearbyData\<close> reads at time
  \<open>t\<close>: the status of the rejection that \<open>Promise.all\<close> reports, if any.
\<close>

definition nearby_status :: "backend \<Rightarrow> nat \<Rightarrow> nat option" where
  "nearby_status env t =
     (case promise_all (reports_reply env t) (panics_reply env t) (panics_settles_first env t) of
        Inl e \<Rightarrow> status e
      | Inr x \<Rightarrow> None)"

section \<open>The event loop\<close>

text \<open>
  The handlers above complete at the instant they start. The schedule of the polling
  needs more: \<open>initializeScreen\<close> is started by the mount effect and not awaited, every
  \<open>await\<close> in it and in the loaders takes time, and the cleanup of the effect only calls
  \<open>clearInterval\<close>. This section gives the same handlers cut at their \<open>await\<close> points.
  A handler that reaches an \<open>await\<close> leaves a task behind, a continuation with the time
  at which the awaited promise settles; the loop runs tasks and interval ticks in the
  order of their times.

  The time an \<open>await\<close> takes is a parameter: one delay for the storage operations of
  \<open>utils/auth\<close> and one for each kind of request (for the nearby pair, the delay until
  \<open>Promise.all\<close> settles), each a function of the time of the call. The reply to a
  request is the one the backend gives at the time the request is issued. A storage read
  yields the value stored when it completes, and \<open>clearAuthData\<close> takes effect when it
  completes. Of two events due at the same instant a task runs before the tick, and the
  task that became pending first runs first.
\<close>

datatype caller = ByMount | ByTimer

text \<open>
  The \<open>await\<close> points: lines 33 and 43 of \<open>initializeScreen\<close>; 62 and 65 of
  \<open>loadAgentProfile\<close>; 80, 83 and 93 of \<open>loadTeamLocation\<close>; 101, 105 and 121 of
  \<open>loadNearbyData\<close>, which remembers who called it; 135, 142 and 159 of
  \<open>handleSearch\<close>, which has captured the search term when the button was pressed; 180
  of the logout confirmation. A continuation behind a request carries the reply.
\<close>

datatype cont =
    InitToken
  | InitMetadata
  | ProfileToken
  | ProfileReply http_result
  | LocationToken
  | LocationReply http_result
  | LocationClear
  | NearbyToken caller
  | NearbyReply caller "http_result + json \<times> json"
  | NearbyClear caller
  | SearchToken jsstring
  | SearchReply http_result
  | SearchClear
  | LogoutClear

record timing =
  storage_delay :: "nat \<Rightarrow> nat"
  profile_delay :: "nat \<Rightarrow> nat"
  location_delay :: "nat \<Rightarrow> nat"
  nearby_delay :: "nat \<Rightarrow> nat"
  search_delay :: "nat \<Rightarrow> nat"

text \<open>
  The loop: the screen, the pending tasks in the order in which they became pending, and
  the log of the calls of \<open>loadNearbyData\<close>, each with its time and its caller.
\<close>

record loop =
  screen :: app
  tasks :: "(nat \<times> cont) list"
  calls :: "(nat \<times> caller) list"

definition on_screen :: "(app \<Rightarrow> app) \<Rightarrow> loop \<Rightarrow> loop" where
  "on_screen f st = st\<lparr>screen := f (screen st)\<rparr>"

definition clock :: "loop \<Rightarrow> nat" where
  "clock st = now (screen st)"

definition await :: "nat \<Rightarrow> cont \<Rightarrow> loop \<Rightarrow> loop" where
  "await d k st = st\<lparr>tasks := tasks st @ [(clock st + d, k)]\<rparr>"

definition await_storage :: "timing \<Rightarrow> cont \<Rightarrow> loop \<Rightarrow> loop" where
  "await_storage tm k st = await (storage_delay tm (clock st)) k st"

text \<open>Calling a loader runs it up to its first \<open>await\<close>, the read of the token.\<close>

definition call_loadAgentProfile :: "timing \<Rightarrow> loop \<Rightarrow> loop" where
  "call_loadAgentProfile tm st = await_storage tm ProfileToken st"

definition call_loadTeamLocation :: "timing \<Rightarrow> loop \<Rightarrow> loop" where
  "call_loadTeamLocation tm st = await_storage tm LocationToken st"

definition call_loadNearbyData :: "timing \<Rightarrow> caller \<Rightarrow> loop \<Rightarrow> loop" where
  "call_loadNearbyData tm c st =
     await_storage tm (NearbyToken c) (st\<lparr>calls := calls st @ [(clock st, c)]\<rparr>)"

text \<open>
  When \<open>loadNearbyData\<close> returns to \<open>initializeScreen\<close>, line 57 runs; the interval has
  nothing to run after it.
\<close>

definition return_loadNearbyData :: "caller \<Rightarrow> loop \<Rightarrow> loop" where
  "return_loadNearbyData c st =
     (case c of ByMount \<Rightarrow> on_screen (\<lambda>s. s\<lparr>loading := False\<rparr>) st | ByTimer \<Rightarrow> st)"

text \<open>What the handlers do to the state cells once an awaited promise has settled.\<close>

definition session_expired :: "app \<Rightarrow> app" where
  "session_expired s = emit (RouterReplace ''/auth/login'') (clearAuthData s)"

definition profile_settled :: "http_result \<Rightarrow> app \<Rightarrow> app" where
  "profile_settled r s =
     (case r of
        Ok d \<Rightarrow>
          (case opt_field d ''full_name'' of
             Some (JStr n) \<Rightarrow> if n \<noteq> [] then s\<lparr>agentName := first_name n\<rparr> else s
           | _ \<Rightarrow> s)
      | _ \<Rightarrow> s)"

definition location_resolved :: "json \<Rightarrow> app \<Rightarrow> app" where
  "location_resolved d s =
     (let s2 = s\<lparr>teamLocation := d\<rparr> in
      if d = JNull then s2
      else s2\<lparr>radiusKm := or_default (field d ''radius_km'') (JNum 10)\<rparr>)"

definition nearby_resolved :: "json \<Rightarrow> json \<Rightarrow> app \<Rightarrow> app" where
  "nearby_resolved rd pd s =
     s\<lparr>nearbyReports := or_default (Some rd) (JArr []),
       nearbyPanics := or_default (Some pd) (JArr [])\<rparr>"

definition search_done :: "app \<Rightarrow> app" where
  "search_done s = s\<lparr>searchLoading := False\<rparr>"

text \<open>
  A task runs from its \<open>await\<close> point to the next one, or to the end of its handler.
  No loader throws past its own \<open>catch\<close>, so \<open>initializeScreen\<close> always goes on to the
  next loader.
\<close>

fun resume :: "timing \<Rightarrow> backend \<Rightarrow> cont \<Rightarrow> loop \<Rightarrow> loop" where
  "resume tm env InitToken st =
     (if no_token (getAuthToken (screen st))
      then on_screen (emit (RouterReplace ''/auth/login'')) st
      else await_storage tm InitMetadata st)"
| "resume tm env InitMetadata st =
     (if getUserMetadata (screen st) \<noteq> Some ''security''
      then on_screen (\<lambda>s. emit (RouterReplace ''/auth/login'')
                            (emit (Alert ''Access Denied'' (JStr (ascii ''Security access required''))) s)) st
      else call_loadAgentProfile tm st)"
| "resume tm env ProfileToken st =
     (case getAuthToken (screen st) of
        None \<Rightarrow> call_loadTeamLocation tm st
      | Some token \<Rightarrow>
          if token = [] then call_loadTeamLocation tm st
          else await (profile_delay tm (clock st)) (ProfileReply (profile_reply env (clock st)))
                 (on_screen (emit (HttpGet ''/api/user/profile'' token)) st))"
| "resume tm env (ProfileReply r) st =
     call_loadTeamLocation tm (on_screen (profile_settled r) st)"
| "resume tm env LocationToken st =
     (case getAuthToken (screen st) of
        None \<Rightarrow> call_loadNearbyData tm ByMount st
      | Some token \<Rightarrow>
          if token = [] then call_loadNearbyData tm ByMount st
          else await (location_delay tm (clock st)) (LocationReply (location_reply env (clock st)))
                 (on_screen (emit (HttpGet ''/api/security/team-location'' token)) st))"
| "resume tm env (LocationReply r) st =
     (case r of
        Ok d \<Rightarrow> call_loadNearbyData tm ByMount (on_screen (location_resolved d) st)
      | e \<Rightarrow>
          if status e = Some 401 then await_storage tm LocationClear st
          else call_loadNearbyData tm ByMount st)"
| "resume tm env LocationClear st =
     call_loadNearbyData tm ByMount (on_screen session_expired st)"
| "resume tm env (NearbyToken c) st =
     (case getAuthToken (screen st) of
        None \<Rightarrow> return_loadNearbyData c st
      | Some token \<Rightarrow>
          if token = [] then return_loadNearbyData c st
          else await (nearby_delay tm (clock st))
                 (NearbyReply c (promise_all (reports_reply env (clock st)) (panics_reply env (clock st))
                                   (panics_settles_first env (clock st))))
                 (on_screen (\<lambda>s. emit (HttpGet ''/api/security/nearby-panics'' token)
                                     (emit (HttpGet ''/api/security/nearby-reports'' token) s)) st))"
| "resume tm env (NearbyReply c res) st =
     (case res of
        Inr (rd, pd) \<Rightarrow> return_loadNearbyData c (on_screen (nearby_resolved rd pd) st)
      | Inl e \<Rightarrow>
          if status e = Some 401 then await_storage tm (NearbyClear c) st
          else return_loadNearbyData c st)"
| "resume tm env (NearbyClear c) st =
     return_loadNearbyData c (on_screen session_expired st)"
| "resume tm env (SearchToken term) st =
     (case getAuthToken (screen st) of
        None \<Rightarrow> on_screen (\<lambda>s. search_done (emit (RouterReplace ''/auth/login'') s)) st
      | Some token \<Rightarrow>
          if token = [] then on_screen (\<lambda>s. search_done (emit (RouterReplace ''/auth/login'') s)) st
          else await (search_delay tm (clock st)) (SearchReply (search_reply env (clock st) (js_trim term)))
                 (on_screen (emit (HttpPost ''/api/security/search-user''
                                     (JObj [(''search_term'', JStr (js_trim term))]) token)) st))"
| "resume tm env (SearchReply r) st =
     (case r of
        Ok d \<Rightarrow> on_screen (\<lambda>s. search_done (emit (RouterPush ''/security/user-track'' d) s)) st
      | HttpError code d \<Rightarrow>
          if code = 401
          then await_storage tm SearchClear
                 (on_screen (emit (Alert ''Session Expired'' (JStr (ascii ''Please login again'')))) st)
          else on_screen (\<lambda>s. search_done (emit (Alert ''Not Found''
                 (or_default (opt_field d ''detail'') (JStr (ascii ''User not found'')))) s)) st
      | NetworkError \<Rightarrow>
          on_screen (\<lambda>s. search_done (emit (Alert ''Not Found'' (JStr (ascii ''User not found''))) s)) st)"
| "resume tm env SearchClear st = on_screen (\<lambda>s. search_done (session_expired s)) st"
| "resume tm env LogoutClear st = on_screen session_expired st"

text \<open>The pending task that settles first; of two that settle together, the older one.\<close>

fun earliest :: "(nat \<times> cont) list \<Rightarrow> (nat \<times> cont) option" where
  "earliest [] = None"
| "earliest (x # xs) =
     (case earliest xs of
        None \<Rightarrow> Some x
      | Some y \<Rightarrow> if fst x \<le> fst y then Some x else Some y)"

datatype event = Resume nat cont | Tick nat

fun event_time :: "event \<Rightarrow> nat" where
  "event_time (Resume t k) = t"
| "event_time (Tick t) = t"

definition next_event :: "loop \<Rightarrow> event option" where
  "next_event st =
     (case earliest (tasks st) of
        None \<Rightarrow> map_option Tick (interval (screen st))
      | Some (t, k) \<Rightarrow>
          (case interval (screen st) of
             None \<Rightarrow> Some (Resume t k)
           | Some due \<Rightarrow> if t \<le> due then Some (Resume t k) else Some (Tick due)))"

definition at_time :: "nat \<Rightarrow> loop \<Rightarrow> loop" where
  "at_time t st = on_screen (\<lambda>s. s\<lparr>now := t\<rparr>) st"

text \<open>
  A tick is the interval calling \<open>loadNearbyData\<close>; the interval is then due again
  30000 ms later.
\<close>

fun perform :: "timing \<Rightarrow> backend \<Rightarrow> event \<Rightarrow> loop \<Rightarrow> loop" where
  "perform tm env (Resume t k) st =
     resume tm env k (at_time t (st\<lparr>tasks := remove1 (t, k) (tasks st)\<rparr>))"
| "perform tm env (Tick t) st =
     call_loadNearbyData tm ByTimer (on_screen (\<lambda>s. s\<lparr>now := t, interval := Some (t + 30000)\<rparr>) st)"

text \<open>
  The number of \<open>await\<close> points a continuation still has before it, and with it a bound on
  the work left up to a time: four steps for every tick still to come, and the steps of
  the pending tasks.
\<close>

fun rank :: "cont \<Rightarrow> nat" where
  "rank InitToken = 11"
| "rank InitMetadata = 10"
| "rank ProfileToken = 9"
| "rank (ProfileReply r) = 8"
| "rank LocationToken = 7"
| "rank (LocationReply r) = 6"
| "rank LocationClear = 5"
| "rank (NearbyToken c) = 3"
| "rank (NearbyReply c res) = 2"
| "rank (NearbyClear c) = 1"
| "rank (SearchToken term) = 3"
| "rank (SearchReply r) = 2"
| "rank SearchClear = 1"
| "rank LogoutClear = 1"

definition workload :: "nat \<Rightarrow> loop \<Rightarrow> nat" where
  "workload target st =
     (case interval (screen st) of None \<Rightarrow> 0 | Some due \<Rightarrow> 4 * firings due target)
     + sum_list (map (\<lambda>x. rank (snd x)) (tasks st))"

text \<open>Time passes up to \<open>target\<close>: everything due by then happens, in order.\<close>

function run :: "timing \<Rightarrow> backend \<Rightarrow> nat \<Rightarrow> loop \<Rightarrow> loop" where
  "run tm env target st =
     (case next_event st of
        None \<Rightarrow> at_time target st
      | Some ev \<Rightarrow>
          if event_time ev \<le> target then run tm env target (perform tm env ev st)
          else at_time target st)"
  by pat_completeness auto
termination
proof (relation "measure (\<lambda>(tm, env, target, st). workload target st)")
  show "wf (measure (\<lambda>(tm, env, target, st). workload target st))"
    by simp
next
  fix tm :: timing and env :: backend and target :: nat and st :: loop and ev :: event
  assume ev: "next_event st = Some ev" and due: "event_time ev \<le> target"
  have mem: "earliest xs = Some x \<Longrightarrow> x \<in> set xs" for xs and x :: "nat \<times> cont"
    by (induction xs arbitrary: x) (auto split: option.splits if_splits)
  have less: "sum_list (map (\<lambda>x. rank (snd x)) (tasks (resume tm env k s)))
      < sum_list (map (\<lambda>x. rank (snd x)) (tasks s)) + rank k"
    and same: "interval (screen (resume tm env k s)) = interval (screen s)" for k s
    by (cases k;
        auto simp: on_screen_def await_def await_storage_def call_loadAgentProfile_def
          call_loadTeamLocation_def call_loadNearbyData_def return_loadNearbyData_def
          session_expired_def profile_settled_def location_resolved_def nearby_resolved_def
          search_done_def emit_def clearAuthData_def Let_def
          split: option.splits http_result.splits sum.splits json.splits caller.splits)+
  have "workload target (perform tm env ev st) < workload target st"
  proof (cases ev)
    case (Resume t k)
    then have "(t, k) \<in> set (tasks st)"
      using ev
      by (auto simp: next_event_def dest: mem split: option.splits if_splits prod.splits)
    then have "sum_list (map (\<lambda>x. rank (snd x)) (tasks st)) =
        rank k + sum_list (map (\<lambda>x. rank (snd x)) (remove1 (t, k) (tasks st)))"
      using sum_list_map_remove1 [of "(t, k)" "tasks st" "\<lambda>x. rank (snd x)"] by simp
    then show ?thesis
      using less [of k "at_time t (st\<lparr>tasks := remove1 (t, k) (tasks st)\<rparr>)"]
        same [of k "at_time t (st\<lparr>tasks := remove1 (t, k) (tasks st)\<rparr>)"] Resume
      by (simp add: workload_def at_time_def on_screen_def)
  next
    case (Tick t)
    then have "interval (screen st) = Some t"
      using ev by (auto simp: next_event_def split: option.splits if_splits prod.splits)
    moreover have "firings (t + 30000) target < firings t target"
      using due Tick by (simp add: firings_def le_div_geq)
    ultimately show ?thesis
      using Tick
      by (simp add: workload_def call_loadNearbyData_def await_storage_def await_def
            on_screen_def)
  qed
  then show "((tm, env, target, perform tm env ev st), tm, env, target, st)
      \<in> measure (\<lambda>(tm, env, target, st). workload target st)"
    by simp
qed

declare run.simps [simp del]

subsection \<open>The user, mounting and unmounting\<close>

text \<open>
  The text field, the search button and the logout button exist only while the dashboard
  is shown, and the search button is disabled while a search is in flight. Pressing the
  search button runs \<open>handleSearch\<close> up to its first \<open>await\<close>; \<open>ConfirmLogout\<close> is the
  Logout button of the confirmation alert. The other buttons of the dashboard only call
  \<open>router.push\<close>: they touch neither a state cell nor a timer of this screen and are no
  events here.
\<close>

datatype user_event = ChangeText jsstring | PressSearch | PressLogout | ConfirmLogout

definition press_search :: "timing \<Rightarrow> loop \<Rightarrow> loop" where
  "press_search tm st =
     (if js_trim (searchTerm (screen st)) = []
      then on_screen (emit (Alert ''Error'' (JStr (ascii ''Please enter phone or email'')))) st
      else await_storage tm (SearchToken (searchTerm (screen st)))
             (on_screen (\<lambda>s. s\<lparr>searchLoading := True\<rparr>) st))"

definition user :: "timing \<Rightarrow> user_event \<Rightarrow> loop \<Rightarrow> loop" where
  "user tm e st =
     (case render (screen st) of
        Some (Dashboard d) \<Rightarrow>
          (case e of
             ChangeText v \<Rightarrow> on_screen (\<lambda>s. s\<lparr>searchTerm := v\<rparr>) st
           | PressSearch \<Rightarrow> if searchDisabled d then st else press_search tm st
           | PressLogout \<Rightarrow>
               on_screen (emit (Alert ''Logout'' (JStr (ascii ''Are you sure you want to logout?'')))) st
           | ConfirmLogout \<Rightarrow> await_storage tm LogoutClear st)
      | _ \<Rightarrow> st)"

text \<open>
  The mount effect: \<open>initializeScreen()\<close> runs to its first \<open>await\<close>, then the interval
  is installed. The cleanup clears the interval and nothing else: pending tasks stay.
\<close>

definition mount_loop :: "timing \<Rightarrow> app \<Rightarrow> loop" where
  "mount_loop tm s =
     await_storage tm InitToken
       \<lparr> screen = s\<lparr>loading := True, interval := Some (now s + 30000)\<rparr>, tasks = [], calls = [] \<rparr>"

definition unmount_loop :: "loop \<Rightarrow> loop" where
  "unmount_loop st = on_screen unmount st"

definition wait :: "timing \<Rightarrow> backend \<Rightarrow> nat \<Rightarrow> loop \<Rightarrow> loop" where
  "wait tm env d st = run tm env (clock st + d) st"

text \<open>The user's actions, each after a further delay.\<close>

fun interact :: "timing \<Rightarrow> backend \<Rightarrow> (nat \<times> user_event) list \<Rightarrow> loop \<Rightarrow> loop" where
  "interact tm env [] st = st"
| "interact tm env ((d, e) # es) st = interact tm env es (user tm e (wait tm env d st))"

text \<open>
  A mounted lifetime and what follows it: the screen mounts at \<open>t0\<close>, the user acts, the
  screen unmounts \<open>d\<close> ms after the last action, and a further \<open>d'\<close> ms pass.
\<close>

definition lifetime ::
  "timing \<Rightarrow> backend \<Rightarrow> string option \<Rightarrow> string option \<Rightarrow> nat \<Rightarrow> (nat \<times> user_event) list
     \<Rightarrow> nat \<Rightarrow> nat \<Rightarrow> loop" where
  "lifetime tm env tok role t0 es d d' =
     wait tm env d' (unmount_loop (wait tm env d (interact tm env es (mount_loop tm (initial_app tok role t0)))))"

definition timer_calls :: "loop \<Rightarrow> (nat \<times> caller) list" where
  "timer_calls st = filter (\<lambda>c. snd c = ByTimer) (calls st)"

definition mount_calls :: "loop \<Rightarrow> (nat \<times> caller) list" where
  "mount_calls st = filter (\<lambda>c. snd c = ByMount) (calls st)"

text \<open>
  The time at which a call at \<open>t\<close> has read the token, and the time at which the
  initialisation of a mount at \<open>t0\<close> reaches line 56 when the guard passes and the token
  stays stored: behind the token read, the metadata read, the token read and the request
  of the profile loader, and the token read and the request of the location loader.
\<close>

definition after_storage :: "timing \<Rightarrow> nat \<Rightarrow> nat" where
  "after_storage tm t = t + storage_delay tm t"

fun settle_from :: "timing \<Rightarrow> cont \<Rightarrow> nat \<Rightarrow> nat" where
  "settle_from tm (LocationReply r) t = t"
| "settle_from tm LocationToken t = t + location_delay tm t"
| "settle_from tm (ProfileReply r) t =
     after_storage tm t + location_delay tm (after_storage tm t)"
| "settle_from tm ProfileToken t =
     after_storage tm (t + profile_delay tm t)
       + location_delay tm (after_storage tm (t + profile_delay tm t))"
| "settle_from tm InitMetadata t =
     after_storage tm (after_storage tm t + profile_delay tm (after_storage tm t))
       + location_delay tm
           (after_storage tm (after_storage tm t + profile_delay tm (after_storage tm t)))"
| "settle_from tm InitToken t =
     after_storage tm
       (after_storage tm (after_storage tm t)
          + profile_delay tm (after_storage tm (after_storage tm t)))
       + location_delay tm
           (after_storage tm
              (after_storage tm (after_storage tm t)
                 + profile_delay tm (after_storage tm (after_storage tm t))))"
| "settle_from tm k t = t"

definition settle_time :: "timing \<Rightarrow> nat \<Rightarrow> nat" where
  "settle_time tm t0 = settle_from tm InitToken (after_storage tm t0)"

text \<open>The times at which the calls logged so far have read, or will have read, the token.\<close>

definition fetch_due :: "timing \<Rightarrow> loop \<Rightarrow> nat multiset" where
  "fetch_due tm st = image_mset (\<lambda>c. after_storage tm (fst c)) (mset (calls st))"

definition demo_timing :: timing where
  "demo_timing =
     \<lparr> storage_delay = (\<lambda>t. 1), profile_delay = (\<lambda>t. 2000), location_delay = (\<lambda>t. 2000),
       nearby_delay = (\<lambda>t. 500), search_delay = (\<lambda>t. 300) \<rparr>"

text \<open>
  The timing without latency, under which every chain of tasks completes at the instant
  at which it starts, and what \<open>loadNearbyData\<close> returns to: line 57 when line 56 called
  it, nothing when the interval did.
\<close>

definition instant :: timing where
  "instant =
     \<lparr> storage_delay = (\<lambda>t. 0), profile_delay = (\<lambda>t. 0), location_delay = (\<lambda>t. 0),
       nearby_delay = (\<lambda>t. 0), search_delay = (\<lambda>t. 0) \<rparr>"

definition finish :: "caller \<Rightarrow> app \<Rightarrow> app" where
  "finish c s = (case c of ByMount \<Rightarrow> s\<lparr>loading := False\<rparr> | ByTimer \<Rightarrow> s)"

subsection \<open>Invariants of the event loop\<close>

text \<open>Nothing pending lies in the past; nothing is due up to \<open>target\<close>.\<close>

definition future :: "loop \<Rightarrow> bool" where
  "future st \<longleftrightarrow>
     (\<forall>x\<in>set (tasks st). clock st \<le> fst x)
     \<and> (\<forall>due. interval (screen st) = Some due \<longrightarrow> clock st \<le> due)"

definition quiet :: "nat \<Rightarrow> loop \<Rightarrow> bool" where
  "quiet target st \<longleftrightarrow>
     (\<forall>x\<in>set (tasks st). target < fst x)
     \<and> (\<forall>due. interval (screen st) = Some due \<longrightarrow> target < due)"

text \<open>While mounted: the ticks so far, and when the interval is due next.\<close>

definition ticking :: "nat \<Rightarrow> loop \<Rightarrow> bool" where
  "ticking t0 st \<longleftrightarrow>
     interval (screen st) = Some (t0 + 30000 * Suc (length (timer_calls st)))
     \<and> timer_calls st = map (\<lambda>k. (t0 + 30000 * Suc k, ByTimer)) [0..<length (timer_calls st)]
     \<and> t0 + 30000 * length (timer_calls st) \<le> clock st"

text \<open>A pending task that is going to clear the session.\<close>

fun harmful :: "cont \<Rightarrow> bool" where
  "harmful (LocationReply r) = (status r = Some 401)"
| "harmful LocationClear = True"
| "harmful (NearbyReply c res) = (case res of Inl e \<Rightarrow> status e = Some 401 | Inr x \<Rightarrow> False)"
| "harmful (NearbyClear c) = True"
| "harmful (SearchReply r) = (status r = Some 401)"
| "harmful SearchClear = True"
| "harmful LogoutClear = True"
| "harmful k = False"

definition calm :: "backend \<Rightarrow> bool" where
  "calm env \<longleftrightarrow>
     (\<forall>t. status (location_reply env t) \<noteq> Some 401)
     \<and> (\<forall>t. status (reports_reply env t) \<noteq> Some 401 \<and> status (panics_reply env t) \<noteq> Some 401)
     \<and> (\<forall>t q. status (search_reply env t q) \<noteq> Some 401)"

definition safe :: "string \<Rightarrow> loop \<Rightarrow> bool" where
  "safe tok st \<longleftrightarrow>
     authToken (screen st) = Some tok \<and> tok \<noteq> [] \<and> userRole (screen st) = Some ''security''
     \<and> (\<forall>x\<in>set (tasks st). \<not> harmful (snd x))"

text \<open>
  The initialisation is either still pending, at one of its \<open>await\<close> points before line
  56 and on time, or it has called \<open>loadNearbyData\<close>, once and at the settle time.
\<close>

fun init_stage :: "cont \<Rightarrow> bool" where
  "init_stage InitToken = True"
| "init_stage InitMetadata = True"
| "init_stage ProfileToken = True"
| "init_stage (ProfileReply r) = True"
| "init_stage LocationToken = True"
| "init_stage (LocationReply r) = True"
| "init_stage LocationClear = True"
| "init_stage k = False"

definition init_tasks :: "loop \<Rightarrow> (nat \<times> cont) list" where
  "init_tasks st = filter (\<lambda>x. init_stage (snd x)) (tasks st)"

definition init_inv :: "timing \<Rightarrow> nat \<Rightarrow> loop \<Rightarrow> bool" where
  "init_inv tm T st \<longleftrightarrow>
     (\<exists>t k. init_tasks st = [(t, k)] \<and> settle_from tm k t = T \<and> mount_calls st = [])
     \<or> (init_tasks st = [] \<and> mount_calls st = [(T, ByMount)] \<and> T \<le> clock st)"

text \<open>
  Every call has either issued its request, at the time its token read completed, or is
  still reading the token.
\<close>

fun token_read :: "cont \<Rightarrow> bool" where
  "token_read (NearbyToken c) = True"
| "token_read k = False"

definition pending_reads :: "loop \<Rightarrow> nat list" where
  "pending_reads st = map fst (filter (\<lambda>x. token_read (snd x)) (tasks st))"

definition fetch_inv :: "timing \<Rightarrow> string \<Rightarrow> loop \<Rightarrow> bool" where
  "fetch_inv tm p st \<longleftrightarrow>
     fetch_due tm st = mset (fetch_times p (effects (screen st))) + mset (pending_reads st)
     \<and> (\<forall>x\<in>set (fetch_times p (effects (screen st))). x \<le> clock st)"

definition nearby_path :: "string \<Rightarrow> bool" where
  "nearby_path p \<longleftrightarrow> p = ''/api/security/nearby-reports'' \<or> p = ''/api/security/nearby-panics''"

definition balance :: "timing \<Rightarrow> string \<Rightarrow> nat multiset \<Rightarrow> loop \<Rightarrow> bool" where
  "balance tm p F st \<longleftrightarrow>
     fetch_due tm st = mset (fetch_times p (effects (screen st))) + mset (pending_reads st) + F"

definition steady :: "timing \<Rightarrow> string \<Rightarrow> nat \<Rightarrow> loop \<Rightarrow> bool" where
  "steady tm tok T st \<longleftrightarrow>
     future st \<and> safe tok st \<and> init_inv tm T st
     \<and> fetch_inv tm ''/api/security/nearby-reports'' st
     \<and> fetch_inv tm ''/api/security/nearby-panics'' st"

section \<open>Properties\<close>

subsection \<open>Auxiliary facts\<close>

lemma emit_simps [simp]:
  "effects (emit e s) = effects s @ [(now s, e)]"
  "authToken (emit e s) = authToken s"
  "userRole (emit e s) = userRole s"
  "now (emit e s) = now s"
  "interval (emit e s) = interval s"
  "nearbyReports (emit e s) = nearbyReports s"
  "nearbyPanics (emit e s) = nearbyPanics s"
  "teamLocation (emit e s) = teamLocation s"
  "radiusKm (emit e s) = radiusKm s"
  "loading (emit e s) = loading s"
  "searchTerm (emit e s) = searchTerm s"
  "searchLoading (emit e s) = searchLoading s"
  "agentName (emit e s) = agentName s"
  by (simp_all add: emit_def)

lemma clearAuthData_simps [simp]:
  "effects (clearAuthData s) = effects s @ [(now s, ClearAuthData)]"
  "authToken (clearAuthData s) = None"
  "userRole (clearAuthData s) = None"
  "now (clearAuthData s) = now s"
  "interval (clearAuthData s) = interval s"
  "nearbyReports (clearAuthData s) = nearbyReports s"
  "nearbyPanics (clearAuthData s) = nearbyPanics s"
  "teamLocation (clearAuthData s) = teamLocation s"
  "radiusKm (clearAuthData s) = radiusKm s"
  "loading (clearAuthData s) = loading s"
  "searchTerm (clearAuthData s) = searchTerm s"
  "searchLoading (clearAuthData s) = searchLoading s"
  "agentName (clearAuthData s) = agentName s"
  by (simp_all add: clearAuthData_def)

lemma no_token_cases:
  "\<not> no_token t \<longleftrightarrow> (\<exists>tok. t = Some tok \<and> tok \<noteq> [])"
  by (cases t) (simp_all add: no_token_def)




subsection \<open>The nearby lists on the dashboard\<close>



subsection \<open>The warning banner and the subtitle of the location card\<close>

text \<open>
  Claim C7. On the dashboard the warning banner is shown exactly when the team location is
  falsy (in particular \<open>null\<close>, the value before any location is loaded) or has latitude
  0 and longitude 0; for a location with numeric coordinates it is shown exactly when both
  are 0, and hidden for every other pair.
\<close>

theorem warning_banner_sentinel:
  assumes "render s = Some (Dashboard d)"
  shows "(teamLocation s = JNull \<longrightarrow> warningBanner d)
       \<and> (\<forall>kvs la lo. teamLocation s = JObj kvs
              \<and> map_of kvs ''latitude'' = Some (JNum la)
              \<and> map_of kvs ''longitude'' = Some (JNum lo)
            \<longrightarrow> (warningBanner d \<longleftrightarrow> la = 0 \<and> lo = 0))
       \<and> (warningBanner d \<longleftrightarrow>
            \<not> truthy (teamLocation s)
            \<or> (field (teamLocation s) ''latitude'' = Some (JNum 0)
                \<and> field (teamLocation s) ''longitude'' = Some (JNum 0)))"
proof -
  from assms have "warningBanner d = banner_shown (teamLocation s)"
    by (auto simp: render_def split: if_splits option.splits)
  then show ?thesis
    by (auto simp: banner_shown_def)
qed

theorem warning_banner_sentinel_witness:
  "render (demo_state\<lparr>teamLocation := demo_location 0 0 10\<rparr>) =
     Some (Dashboard \<lparr> warningBanner = True, cardSubtitle = NotSetText, searchValue = [],
                       searchDisabled = False, panicsSection = EmptyText,
                       reportsSection = EmptyText \<rparr>)
   \<and> render (demo_state\<lparr>teamLocation := demo_location 0 5 10\<rparr>) =
     Some (Dashboard \<lparr> warningBanner = False, cardSubtitle = NotSetText, searchValue = [],
                       searchDisabled = False, panicsSection = EmptyText,
                       reportsSection = EmptyText \<rparr>)"
  using warning_banner_sentinel [of "demo_state\<lparr>teamLocation := demo_location 0 0 10\<rparr>"
      "\<lparr> warningBanner = True, cardSubtitle = NotSetText, searchValue = [],
         searchDisabled = False, panicsSection = EmptyText, reportsSection = EmptyText \<rparr>"]
    warning_banner_sentinel [of "demo_state\<lparr>teamLocation := demo_location 0 5 10\<rparr>"
      "\<lparr> warningBanner = False, cardSubtitle = NotSetText, searchValue = [],
         searchDisabled = False, panicsSection = EmptyText, reportsSection = EmptyText \<rparr>"]
  by (simp add: demo_state_def demo_location_def initial_app_def render_def section_of_def
        banner_shown_def subtitle_of_def)

text \<open>
  Claim C10. On the dashboard the subtitle of the Team Location card is the radius text
  exactly when the team location is truthy and its latitude is not the number 0, and the
  "not set" text otherwise. A location with latitude 0 therefore shows "not set" whatever
  its longitude, while the warning banner is shown for it only when the longitude is 0 as
  well: the two conditions differ at latitude 0 with a longitude other than 0.
\<close>

theorem location_card_subtitle:
  assumes "render s = Some (Dashboard d)"
  shows "(cardSubtitle d = RadiusText (radiusKm s) \<longleftrightarrow>
            truthy (teamLocation s) \<and> field (teamLocation s) ''latitude'' \<noteq> Some (JNum 0))
       \<and> (cardSubtitle d = NotSetText \<longleftrightarrow>
            \<not> truthy (teamLocation s) \<or> field (teamLocation s) ''latitude'' = Some (JNum 0))
       \<and> (\<forall>kvs lo. teamLocation s = JObj kvs
              \<and> map_of kvs ''latitude'' = Some (JNum 0)
              \<and> map_of kvs ''longitude'' = Some (JNum lo)
            \<longrightarrow> cardSubtitle d = NotSetText \<and> (warningBanner d \<longleftrightarrow> lo = 0))"
proof -
  from assms have "cardSubtitle d = subtitle_of (teamLocation s) (radiusKm s)"
    and "warningBanner d = banner_shown (teamLocation s)"
    by (auto simp: render_def split: if_splits option.splits)
  then show ?thesis
    by (auto simp: subtitle_of_def banner_shown_def)
qed

theorem location_card_subtitle_witness:
  "render (demo_state\<lparr>teamLocation := demo_location 0 5 10\<rparr>) =
     Some (Dashboard \<lparr> warningBanner = False, cardSubtitle = NotSetText, searchValue = [],
                       searchDisabled = False, panicsSection = EmptyText,
                       reportsSection = EmptyText \<rparr>)
   \<and> render (demo_state\<lparr>teamLocation := demo_location 4 0 10, radiusKm := JNum 7\<rparr>) =
     Some (Dashboard \<lparr> warningBanner = False, cardSubtitle = RadiusText (JNum 7),
                       searchValue = [], searchDisabled = False, panicsSection = EmptyText,
                       reportsSection = EmptyText \<rparr>)"
  using location_card_subtitle [of "demo_state\<lparr>teamLocation := demo_location 0 5 10\<rparr>"
      "\<lparr> warningBanner = False, cardSubtitle = NotSetText, searchValue = [],
         searchDisabled = False, panicsSection = EmptyText, reportsSection = EmptyText \<rparr>"]
    location_card_subtitle [of "demo_state\<lparr>teamLocation := demo_location 4 0 10, radiusKm := JNum 7\<rparr>"
      "\<lparr> warningBanner = False, cardSubtitle = RadiusText (JNum 7), searchValue = [],
         searchDisabled = False, panicsSection = EmptyText, reportsSection = EmptyText \<rparr>"]
  by (simp add: demo_state_def demo_location_def initial_app_def render_def section_of_def
        banner_shown_def subtitle_of_def)

lemma constant_backend_simps [simp]:
  "profile_reply (constant_backend pr lo re pa first se) t = pr"
  "location_reply (constant_backend pr lo re pa first se) t = lo"
  "reports_reply (constant_backend pr lo re pa first se) t = re"
  "panics_reply (constant_backend pr lo re pa first se) t = pa"
  "panics_settles_first (constant_backend pr lo re pa first se) t = first"
  "search_reply (constant_backend pr lo re pa first se) t q = se"
  by (simp_all add: constant_backend_def)

subsection \<open>The radius of the team location\<close>

text \<open>
  Claim C9, as amended. For every successful team-location response whose body is not
  \<open>null\<close>, the loader stores the body as the team location and sets the radius to the
  body's \<open>radius_km\<close> when that field is present and truthy, and to the default 10 when
  the field is absent or falsy (0, \<open>null\<close>, \<open>false\<close>, the empty string). A \<open>null\<close> body is
  stored as the location and leaves the radius as it was.
\<close>

theorem team_location_radius:
  assumes "\<not> no_token (authToken s)" and "location_reply env (now s) = Ok d"
  shows "teamLocation (loadTeamLocation env s) = d
       \<and> (d \<noteq> JNull \<longrightarrow>
            radiusKm (loadTeamLocation env s) =
              (case field d ''radius_km'' of
                 None \<Rightarrow> JNum 10
               | Some v \<Rightarrow> if truthy v then v else JNum 10))
       \<and> (d = JNull \<longrightarrow> radiusKm (loadTeamLocation env s) = radiusKm s)"
proof -
  obtain tok where "authToken s = Some tok" "tok \<noteq> []"
    using assms(1) by (auto simp: no_token_cases)
  then show ?thesis
    using assms(2)
    by (simp add: loadTeamLocation_def getAuthToken_def or_default_def Let_def)
qed

theorem team_location_radius_witness:
  "\<not> no_token (authToken demo_state)
   \<and> location_reply (constant_backend NetworkError (Ok (demo_location 1 2 25)) NetworkError
         NetworkError False NetworkError) (now demo_state) = Ok (demo_location 1 2 25)
   \<and> radiusKm (loadTeamLocation (constant_backend NetworkError (Ok (demo_location 1 2 25))
         NetworkError NetworkError False NetworkError) demo_state) = JNum 25"
  using team_location_radius [of demo_state
      "constant_backend NetworkError (Ok (demo_location 1 2 25)) NetworkError NetworkError False NetworkError"
      "demo_location 1 2 25"]
  by (simp add: demo_state_def demo_location_def initial_app_def no_token_def)

text \<open>
  The claim as stated fails for a response that carries \<open>radius_km = 0\<close>: the field is
  present, and the radius becomes 10, not the value of the response.
\<close>

theorem radius_from_response_counterexample:
  "location_reply demo_backend (now (demo_state\<lparr>radiusKm := JNum 3\<rparr>)) = Ok (demo_location 0 5 0)
   \<and> field (demo_location 0 5 0) ''radius_km'' = Some (JNum 0)
   \<and> radiusKm (loadTeamLocation demo_backend (demo_state\<lparr>radiusKm := JNum 3\<rparr>)) = JNum 10"
  by (simp add: demo_state_def demo_backend_def demo_location_def initial_app_def
        loadTeamLocation_def getAuthToken_def or_default_def Let_def)

subsection \<open>The nearby-data loader updates both lists or none\<close>

text \<open>
  Claim C3. One run of the nearby-data loader with a stored token issues both GET
  requests. When both resolve, both lists are replaced, each by the body of its response
  (or by the empty list when the body is falsy); when either request fails, and when no
  token is stored, both lists keep their prior values. No run changes one list only.
\<close>

theorem nearby_lists_all_or_nothing:
  "(\<forall>rd pd. \<not> no_token (authToken s) \<and> reports_reply env (now s) = Ok rd
        \<and> panics_reply env (now s) = Ok pd
      \<longrightarrow> nearbyReports (loadNearbyData env s) = (if truthy rd then rd else JArr [])
          \<and> nearbyPanics (loadNearbyData env s) = (if truthy pd then pd else JArr []))
   \<and> (\<not> resolved (reports_reply env (now s)) \<or> \<not> resolved (panics_reply env (now s))
      \<longrightarrow> nearbyReports (loadNearbyData env s) = nearbyReports s
          \<and> nearbyPanics (loadNearbyData env s) = nearbyPanics s)
   \<and> (no_token (authToken s)
      \<longrightarrow> nearbyReports (loadNearbyData env s) = nearbyReports s
          \<and> nearbyPanics (loadNearbyData env s) = nearbyPanics s)
   \<and> (\<forall>tok. authToken s = Some tok \<and> tok \<noteq> []
      \<longrightarrow> take 2 (drop (length (effects s)) (effects (loadNearbyData env s))) =
            [(now s, HttpGet ''/api/security/nearby-reports'' tok),
             (now s, HttpGet ''/api/security/nearby-panics'' tok)])"
proof (cases "no_token (authToken s)")
  case True
  then show ?thesis
    by (auto simp: loadNearbyData_def getAuthToken_def no_token_def split: option.splits)
next
  case False
  then obtain tok where tok: "authToken s = Some tok" "tok \<noteq> []"
    by (auto simp: no_token_cases)
  show ?thesis
    by (cases "reports_reply env (now s)"; cases "panics_reply env (now s)")
       (simp_all add: loadNearbyData_def getAuthToken_def tok or_default_def Let_def no_token_def)
qed

theorem nearby_lists_all_or_nothing_witness:
  "nearbyReports (loadNearbyData demo_backend demo_state) = JArr demo_reports
   \<and> nearbyPanics (loadNearbyData demo_backend demo_state) = JArr demo_panics
   \<and> nearbyReports (loadNearbyData
        (constant_backend NetworkError NetworkError (Ok (JArr [])) (HttpError 500 JNull) False NetworkError)
        (loadNearbyData demo_backend demo_state)) = JArr demo_reports
   \<and> nearbyPanics (loadNearbyData
        (constant_backend NetworkError NetworkError (Ok (JArr [])) (HttpError 500 JNull) False NetworkError)
        (loadNearbyData demo_backend demo_state)) = JArr demo_panics"
  using nearby_lists_all_or_nothing [of demo_state demo_backend]
    nearby_lists_all_or_nothing [of "loadNearbyData demo_backend demo_state"
      "constant_backend NetworkError NetworkError (Ok (JArr [])) (HttpError 500 JNull) False NetworkError"]
  by (simp add: demo_state_def demo_backend_def initial_app_def no_token_def)

subsection \<open>What each loader changes\<close>

lemma loadAgentProfile_frame:
  "authToken (loadAgentProfile env s) = authToken s"
  "userRole (loadAgentProfile env s) = userRole s"
  "now (loadAgentProfile env s) = now s"
  "interval (loadAgentProfile env s) = interval s"
  "loading (loadAgentProfile env s) = loading s"
  by (auto simp: loadAgentProfile_def Let_def
       split: option.splits http_result.splits json.splits)

lemma loadAgentProfile_effects:
  "effects (loadAgentProfile env s) =
     effects s @ (case authToken s of
                    None \<Rightarrow> []
                  | Some tok \<Rightarrow> if tok = [] then [] else [(now s, HttpGet ''/api/user/profile'' tok)])"
  by (auto simp: loadAgentProfile_def getAuthToken_def Let_def
       split: option.splits http_result.splits json.splits)

lemma loadTeamLocation_frame:
  "now (loadTeamLocation env s) = now s"
  "interval (loadTeamLocation env s) = interval s"
  "loading (loadTeamLocation env s) = loading s"
  by (auto simp: loadTeamLocation_def Let_def split: option.splits http_result.splits)

lemma loadTeamLocation_401:
  assumes "authToken s = Some tok" "tok \<noteq> []" "status (location_reply env (now s)) = Some 401"
  shows "effects (loadTeamLocation env s) =
           effects s @ [(now s, HttpGet ''/api/security/team-location'' tok),
                        (now s, ClearAuthData), (now s, RouterReplace ''/auth/login'')]"
    and "authToken (loadTeamLocation env s) = None"
  using assms
  by (auto simp: loadTeamLocation_def getAuthToken_def Let_def split: http_result.splits)

lemma loadTeamLocation_other:
  assumes "authToken s = Some tok" "tok \<noteq> []" "status (location_reply env (now s)) \<noteq> Some 401"
  shows "effects (loadTeamLocation env s) =
           effects s @ [(now s, HttpGet ''/api/security/team-location'' tok)]"
    and "authToken (loadTeamLocation env s) = authToken s"
    and "userRole (loadTeamLocation env s) = userRole s"
  using assms
  by (auto simp: loadTeamLocation_def getAuthToken_def Let_def split: http_result.splits)

lemma loadNearbyData_frame:
  "now (loadNearbyData env s) = now s"
  "interval (loadNearbyData env s) = interval s"
  "loading (loadNearbyData env s) = loading s"
  by (auto simp: loadNearbyData_def Let_def split: option.splits sum.splits)

lemma loadNearbyData_no_token:
  "no_token (authToken s) \<Longrightarrow> loadNearbyData env s = s"
  by (auto simp: loadNearbyData_def getAuthToken_def no_token_def split: option.splits)

lemma loadNearbyData_401:
  assumes "authToken s = Some tok" "tok \<noteq> []" "nearby_status env (now s) = Some 401"
  shows "effects (loadNearbyData env s) =
           effects s @ [(now s, HttpGet ''/api/security/nearby-reports'' tok),
                        (now s, HttpGet ''/api/security/nearby-panics'' tok),
                        (now s, ClearAuthData), (now s, RouterReplace ''/auth/login'')]"
    and "authToken (loadNearbyData env s) = None"
  using assms
  by (auto simp: loadNearbyData_def getAuthToken_def nearby_status_def Let_def split: sum.splits)

lemma loadNearbyData_other:
  assumes "authToken s = Some tok" "tok \<noteq> []" "nearby_status env (now s) \<noteq> Some 401"
  shows "effects (loadNearbyData env s) =
           effects s @ [(now s, HttpGet ''/api/security/nearby-reports'' tok),
                        (now s, HttpGet ''/api/security/nearby-panics'' tok)]"
    and "authToken (loadNearbyData env s) = authToken s"
    and "userRole (loadNearbyData env s) = userRole s"
  using assms
  by (auto simp: loadNearbyData_def getAuthToken_def nearby_status_def Let_def split: sum.splits)

lemma occurrences_simps [simp]:
  "occurrences e [] = 0"
  "occurrences e (xs @ ys) = occurrences e xs + occurrences e ys"
  "occurrences e ((t, e') # xs) = (if e' = e then 1 else 0) + occurrences e xs"
  by (simp_all add: occurrences_def)

lemma initializeScreen_guarded:
  assumes "authToken s = Some tok" "tok \<noteq> []" "userRole s = Some ''security''"
  shows "initializeScreen env s =
           (loadNearbyData env (loadTeamLocation env (loadAgentProfile env (s\<lparr>loading := True\<rparr>))))
             \<lparr>loading := False\<rparr>"
  using assms by (simp add: initializeScreen_def getAuthToken_def getUserMetadata_def no_token_def)

subsection \<open>A 401 response\<close>

text \<open>
  Claim C2, as amended. With a stored token, the location loader on a 401 response, and
  the nearby-data loader when the rejection that \<open>Promise.all\<close> reports is a 401, issue
  their requests, clear the session once and redirect to the login screen once, and do
  nothing else. In the loading sequence of a mount that passes the session guard, a 401
  seen by either of these two loaders results in exactly one session-clear and exactly
  one redirect. The profile loader is not covered.
\<close>

theorem unauthorized_clears_session_once:
  assumes "authToken s = Some tok" and "tok \<noteq> []"
  shows "(status (location_reply env (now s)) = Some 401 \<longrightarrow>
            effects (loadTeamLocation env s) =
              effects s @ [(now s, HttpGet ''/api/security/team-location'' tok),
                           (now s, ClearAuthData), (now s, RouterReplace ''/auth/login'')]
            \<and> authToken (loadTeamLocation env s) = None)
       \<and> (nearby_status env (now s) = Some 401 \<longrightarrow>
            effects (loadNearbyData env s) =
              effects s @ [(now s, HttpGet ''/api/security/nearby-reports'' tok),
                           (now s, HttpGet ''/api/security/nearby-panics'' tok),
                           (now s, ClearAuthData), (now s, RouterReplace ''/auth/login'')]
            \<and> authToken (loadNearbyData env s) = None)
       \<and> (userRole s = Some ''security''
            \<and> (status (location_reply env (now s)) = Some 401 \<or> nearby_status env (now s) = Some 401)
          \<longrightarrow> occurrences ClearAuthData (effects (initializeScreen env s)) =
                occurrences ClearAuthData (effects s) + 1
              \<and> occurrences (RouterReplace ''/auth/login'') (effects (initializeScreen env s)) =
                occurrences (RouterReplace ''/auth/login'') (effects s) + 1)"
proof -
  let ?s0 = "s\<lparr>loading := True\<rparr>"
  let ?s1 = "loadAgentProfile env ?s0"
  let ?s2 = "loadTeamLocation env ?s1"
  let ?s3 = "loadNearbyData env ?s2"
  have s1: "authToken ?s1 = Some tok" "now ?s1 = now s"
    "effects ?s1 = effects s @ [(now s, HttpGet ''/api/user/profile'' tok)]"
    using assms by (simp_all add: loadAgentProfile_frame loadAgentProfile_effects)
  have mount: "occurrences ClearAuthData (effects ?s3) = occurrences ClearAuthData (effects s) + 1
      \<and> occurrences (RouterReplace ''/auth/login'') (effects ?s3) =
        occurrences (RouterReplace ''/auth/login'') (effects s) + 1"
    if "status (location_reply env (now s)) = Some 401 \<or> nearby_status env (now s) = Some 401"
  proof (cases "status (location_reply env (now s)) = Some 401")
    case True
    then have "effects ?s2 = effects ?s1 @ [(now s, HttpGet ''/api/security/team-location'' tok),
                        (now s, ClearAuthData), (now s, RouterReplace ''/auth/login'')]"
      and "authToken ?s2 = None"
      using loadTeamLocation_401 [of ?s1 tok env] s1 assms(2) by simp_all
    moreover from this have "?s3 = ?s2"
      by (simp add: loadNearbyData_no_token no_token_def)
    ultimately show ?thesis
      by (simp add: s1)
  next
    case False
    then have s2: "effects ?s2 = effects ?s1 @ [(now s, HttpGet ''/api/security/team-location'' tok)]"
      "authToken ?s2 = Some tok" "now ?s2 = now s"
      using loadTeamLocation_other [of ?s1 tok env] s1 assms(2)
      by (simp_all add: loadTeamLocation_frame)
    from False that have "nearby_status env (now ?s2) = Some 401"
      by (simp add: s2)
    then have "effects ?s3 = effects ?s2 @ [(now s, HttpGet ''/api/security/nearby-reports'' tok),
                        (now s, HttpGet ''/api/security/nearby-panics'' tok),
                        (now s, ClearAuthData), (now s, RouterReplace ''/auth/login'')]"
      using loadNearbyData_401 [of ?s2 tok env] s2 assms(2) by simp
    then show ?thesis
      by (simp add: s1 s2)
  qed
  show ?thesis
    using loadTeamLocation_401 [of s tok env] loadNearbyData_401 [of s tok env] assms mount
    by (simp add: initializeScreen_guarded)
qed

theorem unauthorized_clears_session_once_witness:
  "effects (loadTeamLocation
      (constant_backend (Ok JNull) (HttpError 401 JNull) (Ok (JArr [])) (Ok (JArr [])) False NetworkError)
      demo_state) =
     [(0, HttpGet ''/api/security/team-location'' ''tok''), (0, ClearAuthData),
      (0, RouterReplace ''/auth/login'')]
   \<and> occurrences ClearAuthData (effects (initializeScreen
      (constant_backend (Ok JNull) (HttpError 401 JNull) (Ok (JArr [])) (Ok (JArr [])) False NetworkError)
      demo_state)) = 1
   \<and> occurrences (RouterReplace ''/auth/login'') (effects (initializeScreen
      (constant_backend (Ok JNull) (HttpError 401 JNull) (Ok (JArr [])) (Ok (JArr [])) False NetworkError)
      demo_state)) = 1"
  using unauthorized_clears_session_once [of demo_state "''tok''"
      "constant_backend (Ok JNull) (HttpError 401 JNull) (Ok (JArr [])) (Ok (JArr [])) False NetworkError"]
  by (simp add: demo_state_def initial_app_def)

text \<open>
  The claim as stated fails for the profile loader: on a 401 it issues its request and
  does nothing more; the token stays stored.
\<close>

theorem profile_unauthorized_counterexample:
  "status (profile_reply
      (constant_backend (HttpError 401 JNull) NetworkError NetworkError NetworkError False NetworkError)
      (now demo_state)) = Some 401
   \<and> effects (loadAgentProfile
      (constant_backend (HttpError 401 JNull) NetworkError NetworkError NetworkError False NetworkError)
      demo_state) = [(0, HttpGet ''/api/user/profile'' ''tok'')]
   \<and> authToken (loadAgentProfile
      (constant_backend (HttpError 401 JNull) NetworkError NetworkError NetworkError False NetworkError)
      demo_state) = Some ''tok''"
  by (simp add: demo_state_def initial_app_def loadAgentProfile_def getAuthToken_def Let_def)

subsection \<open>Search\<close>

lemma js_trim_empty_iff: "js_trim s = [] \<longleftrightarrow> (\<forall>c\<in>set s. js_whitespace c)"
proof -
  have "js_trim s = [] \<longleftrightarrow> (\<forall>c\<in>set (dropWhile js_whitespace s). js_whitespace c)"
    by (simp add: js_trim_def dropWhile_eq_Nil_conv)
  also have "\<dots> \<longleftrightarrow> dropWhile js_whitespace s = []"
  proof
    assume all: "\<forall>c\<in>set (dropWhile js_whitespace s). js_whitespace c"
    show "dropWhile js_whitespace s = []"
    proof (rule ccontr)
      assume ne: "dropWhile js_whitespace s \<noteq> []"
      then have "\<not> js_whitespace (hd (dropWhile js_whitespace s))"
        by (rule hd_dropWhile)
      moreover have "hd (dropWhile js_whitespace s) \<in> set (dropWhile js_whitespace s)"
        using ne by simp
      ultimately show False using all by blast
    qed
  next
    assume e: "dropWhile js_whitespace s = []"
    show "\<forall>c\<in>set (dropWhile js_whitespace s). js_whitespace c"
      unfolding e by simp
  qed
  also have "\<dots> \<longleftrightarrow> (\<forall>c\<in>set s. js_whitespace c)"
    by (simp add: dropWhile_eq_Nil_conv)
  finally show ?thesis .
qed

text \<open>
  Claim C6, as amended. A search whose input is empty or consists of whitespace only shows
  the validation alert and does nothing else. A search with any other input, when a token
  is stored, POSTs the trimmed term to the search endpoint, and what follows the POST is
  no further request; when no token is stored it redirects to the login screen without
  any request.
\<close>

theorem search_validation:
  "((\<forall>c\<in>set (searchTerm s). js_whitespace c) \<longrightarrow>
      effects (handleSearch env s) =
        effects s @ [(now s, Alert ''Error'' (JStr (ascii ''Please enter phone or email'')))])
   \<and> (\<not> (\<forall>c\<in>set (searchTerm s). js_whitespace c) \<and> authToken s = Some tok \<and> tok \<noteq> [] \<longrightarrow>
        (\<exists>e. effects (handleSearch env s) =
                effects s @ [(now s, HttpPost ''/api/security/search-user''
                                       (JObj [(''search_term'', JStr (js_trim (searchTerm s)))]) tok)] @ e
              \<and> (\<forall>x\<in>set e. \<not> is_request (snd x))))
   \<and> (\<not> (\<forall>c\<in>set (searchTerm s). js_whitespace c) \<and> no_token (authToken s) \<longrightarrow>
        effects (handleSearch env s) = effects s @ [(now s, RouterReplace ''/auth/login'')])"
proof (cases "js_trim (searchTerm s) = []")
  case True
  then show ?thesis
    by (simp add: handleSearch_def js_trim_empty_iff [symmetric])
next
  case False
  then have ne: "\<not> (\<forall>c\<in>set (searchTerm s). js_whitespace c)"
    by (simp add: js_trim_empty_iff)
  have post: "\<exists>e. effects (handleSearch env s) =
                effects s @ [(now s, HttpPost ''/api/security/search-user''
                                       (JObj [(''search_term'', JStr (js_trim (searchTerm s)))]) tok)] @ e
              \<and> (\<forall>x\<in>set e. \<not> is_request (snd x))"
    if "authToken s = Some tok" "tok \<noteq> []"
    using that False
    by (cases "search_reply env (now s) (js_trim (searchTerm s))")
       (simp_all add: handleSearch_def getAuthToken_def Let_def is_request_def)
  have redirect: "effects (handleSearch env s) = effects s @ [(now s, RouterReplace ''/auth/login'')]"
    if "no_token (authToken s)"
    using that False
    by (auto simp: handleSearch_def getAuthToken_def Let_def no_token_def split: option.splits)
  from ne post redirect show ?thesis by blast
qed

theorem search_validation_witness:
  "effects (handleSearch demo_backend (demo_state\<lparr>searchTerm := [0x20, 0x09, 0xA0]\<rparr>)) =
     [(0, Alert ''Error'' (JStr (ascii ''Please enter phone or email'')))]
   \<and> effects (handleSearch demo_backend (demo_state\<lparr>searchTerm := [0x20, 0x61, 0x20]\<rparr>)) =
     [(0, HttpPost ''/api/security/search-user'' (JObj [(''search_term'', JStr [0x61])]) ''tok''),
      (0, RouterPush ''/security/user-track'' (JObj [(''user_id'', JNum 9)]))]"
  using search_validation [of "demo_state\<lparr>searchTerm := [0x20, 0x09, 0xA0]\<rparr>" demo_backend "''tok''"]
    search_validation [of "demo_state\<lparr>searchTerm := [0x20, 0x61, 0x20]\<rparr>" demo_backend "''tok''"]
  by (simp add: demo_state_def demo_backend_def initial_app_def handleSearch_def js_trim_def
        js_whitespace_def getAuthToken_def Let_def)

text \<open>
  The claim as stated fails once the session has lost its token: after a poll that was
  answered with 401 has cleared the session, a search for a non-empty term redirects to
  the login screen and posts nothing.
\<close>

theorem search_without_token_counterexample:
  "js_trim [0x61] = [0x61]
   \<and> effects (handleSearch demo_backend
        ((loadNearbyData
            (constant_backend NetworkError NetworkError (HttpError 401 JNull) (Ok (JArr [])) False NetworkError)
            demo_state)\<lparr>searchTerm := [0x61]\<rparr>)) =
       [(0, HttpGet ''/api/security/nearby-reports'' ''tok''),
        (0, HttpGet ''/api/security/nearby-panics'' ''tok''),
        (0, ClearAuthData),
        (0, RouterReplace ''/auth/login''),
        (0, RouterReplace ''/auth/login'')]"
  by (simp add: demo_state_def initial_app_def handleSearch_def js_trim_def js_whitespace_def
        loadNearbyData_def getAuthToken_def Let_def)

subsection \<open>The session guard and the polling timer\<close>

lemma fire_no_token:
  "no_token (authToken s) \<Longrightarrow>
     effects (fire env n s) = effects s \<and> authToken (fire env n s) = authToken s
     \<and> loading (fire env n s) = loading s"
proof (induction n arbitrary: s)
  case 0
  then show ?case by simp
next
  case (Suc n)
  show ?case
  proof (cases "interval s")
    case None
    then show ?thesis by simp
  next
    case (Some due)
    let ?s' = "(loadNearbyData env (s\<lparr>now := due\<rparr>))\<lparr>interval := Some (due + 30000)\<rparr>"
    have same: "loadNearbyData env (s\<lparr>now := due\<rparr>) = s\<lparr>now := due\<rparr>"
      using Suc.prems by (simp add: loadNearbyData_no_token)
    then have "no_token (authToken ?s')" "effects ?s' = effects s" "authToken ?s' = authToken s"
      "loading ?s' = loading s"
      using Suc.prems by simp_all
    with Suc.IH [of ?s'] Some show ?thesis by simp
  qed
qed

text \<open>
  Claim C5. A mount with no stored token (none, or the empty string) navigates to the
  login screen, and however much time then passes with the screen mounted, the polling
  ticks included, that navigation stays the only effect: no request is ever issued. The
  screen keeps showing the loading view, so the search field is never offered either.
\<close>

theorem no_token_redirects_without_requests:
  assumes "no_token tok"
  shows "effects (elapse env d (mount env (initial_app tok role t0))) =
           [(t0, RouterReplace ''/auth/login'')]
       \<and> render (elapse env d (mount env (initial_app tok role t0))) = Some LoadingView"
proof -
  let ?m = "mount env (initial_app tok role t0)"
  have m: "effects ?m = [(t0, RouterReplace ''/auth/login'')]" "authToken ?m = tok"
    "interval ?m = Some (t0 + 30000)" "loading ?m"
    using assms
    by (simp_all add: mount_def initializeScreen_def getAuthToken_def initial_app_def)
  then show ?thesis
    using fire_no_token [of ?m env] assms
    by (simp add: elapse_def Let_def render_def)
qed

theorem no_token_redirects_without_requests_witness:
  "no_token None
   \<and> effects (elapse demo_backend 95000 (mount demo_backend (initial_app None None 0))) =
       [(0, RouterReplace ''/auth/login'')]
   \<and> render (elapse demo_backend 95000 (mount demo_backend (initial_app None None 0))) =
       Some LoadingView"
  using no_token_redirects_without_requests [of None demo_backend 95000 None 0]
  by (simp add: no_token_def)

text \<open>
  Claim C1, as amended. A mount with a stored token and a stored role other than
  \<open>security\<close> shows the access-denied alert and redirects to the login screen, and the
  mount itself does nothing else: its initialisation issues no request. The polling ticks
  are not covered.
\<close>

theorem role_mismatch_alert_and_redirect:
  assumes "\<not> no_token tok" and "role \<noteq> Some ''security''"
  shows "effects (mount env (initial_app tok role t0)) =
           [(t0, Alert ''Access Denied'' (JStr (ascii ''Security access required''))),
            (t0, RouterReplace ''/auth/login'')]"
  using assms
  by (simp add: mount_def initializeScreen_def getAuthToken_def getUserMetadata_def initial_app_def)

theorem role_mismatch_alert_and_redirect_witness:
  "\<not> no_token (Some ''tok'')
   \<and> effects (mount demo_backend (initial_app (Some ''tok'') (Some ''user'') 0)) =
           [(0, Alert ''Access Denied'' (JStr (ascii ''Security access required''))),
            (0, RouterReplace ''/auth/login'')]"
  using role_mismatch_alert_and_redirect [of "Some ''tok''" "Some ''user''" demo_backend 0]
  by (simp add: no_token_def)

text \<open>
  The claim as stated fails at the first polling tick: the interval is installed whatever
  the guard decides, the token is still stored, and 30 seconds after the mount the
  nearby-data loader issues both requests.
\<close>

theorem role_mismatch_poll_counterexample:
  "effects (elapse demo_backend 30000 (mount demo_backend (initial_app (Some ''tok'') (Some ''user'') 0))) =
     [(0, Alert ''Access Denied'' (JStr (ascii ''Security access required''))),
      (0, RouterReplace ''/auth/login''),
      (30000, HttpGet ''/api/security/nearby-reports'' ''tok''),
      (30000, HttpGet ''/api/security/nearby-panics'' ''tok'')]"
  by (simp add: elapse_def mount_def initializeScreen_def getAuthToken_def getUserMetadata_def
        initial_app_def no_token_def firings_def loadNearbyData_def demo_backend_def Let_def)

lemma fetch_times_append [simp]:
  "fetch_times p (xs @ ys) = fetch_times p xs @ fetch_times p ys"
  by (simp add: fetch_times_def)

subsection \<open>Steps of the event loop\<close>

lemma earliest_mem: "earliest xs = Some x \<Longrightarrow> x \<in> set xs"
  by (induction xs arbitrary: x) (auto split: option.splits if_splits)

lemma earliest_None [simp]: "earliest xs = None \<longleftrightarrow> xs = []"
  by (induction xs) (auto split: option.splits)

lemma earliest_le: "earliest xs = Some x \<Longrightarrow> y \<in> set xs \<Longrightarrow> fst x \<le> fst y"
proof (induction xs arbitrary: x)
  case Nil
  then show ?case by simp
next
  case (Cons a xs)
  show ?case
  proof (cases "earliest xs")
    case None
    then show ?thesis using Cons.prems by simp
  next
    case (Some z)
    have z: "y \<in> set xs \<Longrightarrow> fst z \<le> fst y"
      using Cons.IH [OF Some] .
    show ?thesis
    proof (cases "fst a \<le> fst z")
      case True
      then have "x = a" using Cons.prems(1) Some by simp
      then show ?thesis using Cons.prems(2) z True by auto
    next
      case False
      then have "x = z" using Cons.prems(1) Some by simp
      then show ?thesis using Cons.prems(2) z False by auto
    qed
  qed
qed

lemma resume_interval [simp]: "interval (screen (resume tm env k st)) = interval (screen st)"
  by (cases k)
     (auto simp: on_screen_def await_def await_storage_def call_loadAgentProfile_def
        call_loadTeamLocation_def call_loadNearbyData_def return_loadNearbyData_def
        session_expired_def profile_settled_def location_resolved_def nearby_resolved_def
        search_done_def Let_def
        split: option.splits http_result.splits sum.splits json.splits caller.splits)

lemmas loop_defs = on_screen_def await_def await_storage_def call_loadAgentProfile_def
  call_loadTeamLocation_def call_loadNearbyData_def return_loadNearbyData_def clock_def at_time_def

lemmas settle_defs = session_expired_def profile_settled_def location_resolved_def
  nearby_resolved_def search_done_def

lemma clock_simps [simp]:
  "clock (at_time t st) = t"
  "clock (st\<lparr>tasks := ts\<rparr>) = clock st"
  "clock (st\<lparr>calls := cs\<rparr>) = clock st"
  "clock (await d k st) = clock st"
  "clock (await_storage tm k st) = clock st"
  by (simp_all add: clock_def at_time_def on_screen_def await_def await_storage_def)

lemma settled_now [simp]:
  "now (profile_settled r s) = now s"
  "now (location_resolved d s) = now s"
  "now (nearby_resolved rd pd s) = now s"
  "now (session_expired s) = now s"
  "now (search_done s) = now s"
  by (auto simp: profile_settled_def location_resolved_def nearby_resolved_def
        session_expired_def search_done_def Let_def
        split: http_result.splits option.splits json.splits)

lemma resume_clock [simp]: "clock (resume tm env k st) = clock st"
  by (cases k)
     (auto simp: loop_defs settle_defs Let_def
        split: option.splits http_result.splits sum.splits json.splits caller.splits)

lemma resume_calls_timer [simp]: "timer_calls (resume tm env k st) = timer_calls st"
  by (cases k)
     (auto simp: loop_defs timer_calls_def
        split: option.splits http_result.splits sum.splits caller.splits)

lemma resume_tasks_future:
  assumes "\<forall>x\<in>set (tasks st). clock st \<le> fst x"
  shows "\<forall>x\<in>set (tasks (resume tm env k st)). clock st \<le> fst x"
  using assms
  by (cases k)
     (auto simp: on_screen_def await_def await_storage_def call_loadAgentProfile_def
        call_loadTeamLocation_def call_loadNearbyData_def return_loadNearbyData_def clock_def
        split: option.splits http_result.splits sum.splits caller.splits)

lemma next_event_Resume:
  assumes "next_event st = Some (Resume t k)"
  shows "(t, k) \<in> set (tasks st)" and "\<forall>x\<in>set (tasks st). t \<le> fst x"
    and "\<forall>due. interval (screen st) = Some due \<longrightarrow> t \<le> due"
  using assms
  by (auto simp: next_event_def dest: earliest_mem earliest_le split: option.splits if_splits prod.splits)

lemma next_event_Tick:
  assumes "next_event st = Some (Tick t)"
  shows "interval (screen st) = Some t" and "\<forall>x\<in>set (tasks st). t \<le> fst x"
  using assms
  by (auto simp: next_event_def dest: earliest_le split: option.splits if_splits prod.splits)

lemma next_event_None:
  assumes "next_event st = None"
  shows "tasks st = []" and "interval (screen st) = None"
  using assms
  by (auto simp: next_event_def split: option.splits if_splits prod.splits)

lemma next_event_late:
  assumes "next_event st = Some ev" and "target < event_time ev"
  shows "quiet target st"
proof (cases ev)
  case (Resume t k)
  then show ?thesis
    using next_event_Resume [of st t k] assms by (fastforce simp: quiet_def)
next
  case (Tick t)
  then show ?thesis
    using next_event_Tick [of st t] assms by (fastforce simp: quiet_def)
qed

lemma future_perform:
  assumes "future st" and "next_event st = Some ev"
  shows "future (perform tm env ev st)"
proof (cases ev)
  case (Resume t k)
  let ?st = "at_time t (st\<lparr>tasks := remove1 (t, k) (tasks st)\<rparr>)"
  have "\<forall>x\<in>set (tasks ?st). clock ?st \<le> fst x"
    using next_event_Resume(2) [of st t k] assms(2) Resume
    by (auto simp: loop_defs dest: notin_set_remove1)
  then have "\<forall>x\<in>set (tasks (resume tm env k ?st)). clock ?st \<le> fst x"
    by (rule resume_tasks_future)
  moreover have "\<forall>due. interval (screen ?st) = Some due \<longrightarrow> clock ?st \<le> due"
    using next_event_Resume(3) [of st t k] assms(2) Resume by (simp add: loop_defs)
  ultimately show ?thesis
    using Resume by (simp add: future_def)
next
  case (Tick t)
  then show ?thesis
    using next_event_Tick [of st t] assms(2)
    by (auto simp: future_def loop_defs)
qed

lemma clock_perform:
  assumes "future st" and "next_event st = Some ev"
  shows "clock st \<le> clock (perform tm env ev st)" and "clock (perform tm env ev st) = event_time ev"
proof -
  show "clock (perform tm env ev st) = event_time ev"
    by (cases ev) (simp_all add: call_loadNearbyData_def, simp add: clock_def on_screen_def)
  then show "clock st \<le> clock (perform tm env ev st)"
    using assms next_event_Resume(1) [of st] next_event_Tick(1) [of st]
    by (cases ev) (auto simp: future_def)
qed

text \<open>An invariant of the steps is an invariant of the run.\<close>

lemma run_invariant:
  assumes "P st"
    and "\<And>st' ev. P st' \<Longrightarrow> next_event st' = Some ev \<Longrightarrow> event_time ev \<le> target
           \<Longrightarrow> P (perform tm env ev st')"
    and "\<And>st'. P st' \<Longrightarrow> quiet target st' \<Longrightarrow> P (at_time target st')"
  shows "P (run tm env target st)"
  using assms
proof (induction tm env target st rule: run.induct)
  case (1 tm env target st)
  note step = "1.prems"(2) and stop = "1.prems"(3)
  show ?case
  proof (cases "next_event st")
    case None
    then have "quiet target st"
      using next_event_None [of st] by (simp add: quiet_def)
    then have "P (at_time target st)"
      using "1.prems"(1) by (rule stop [rotated])
    then show ?thesis
      using None by (simp add: run.simps)
  next
    case (Some ev)
    show ?thesis
    proof (cases "event_time ev \<le> target")
      case True
      have "P (perform tm env ev st)"
        using "1.prems"(1) Some True by (rule step)
      then have "P (run tm env target (perform tm env ev st))"
        using step stop by (rule "1.IH" [OF Some True])
      then show ?thesis
        using Some True by (simp add: run.simps)
    next
      case False
      then have "quiet target st"
        using next_event_late [OF Some] by simp
      then have "P (at_time target st)"
        using "1.prems"(1) by (rule stop [rotated])
      then show ?thesis
        using Some False by (simp add: run.simps)
    qed
  qed
qed

lemma settled_session [simp]:
  "authToken (profile_settled r s) = authToken s"
  "authToken (location_resolved d s) = authToken s"
  "authToken (nearby_resolved rd pd s) = authToken s"
  "authToken (search_done s) = authToken s"
  "userRole (profile_settled r s) = userRole s"
  "userRole (location_resolved d s) = userRole s"
  "userRole (nearby_resolved rd pd s) = userRole s"
  "userRole (search_done s) = userRole s"
  by (auto simp: profile_settled_def location_resolved_def nearby_resolved_def
        search_done_def Let_def
        split: http_result.splits option.splits json.splits)

lemma settled_effects [simp]:
  "effects (profile_settled r s) = effects s"
  "effects (location_resolved d s) = effects s"
  "effects (nearby_resolved rd pd s) = effects s"
  "effects (search_done s) = effects s"
  by (auto simp: profile_settled_def location_resolved_def nearby_resolved_def
        search_done_def Let_def
        split: http_result.splits option.splits json.splits)

lemma promise_all_calm:
  assumes "status r \<noteq> Some 401" and "status p \<noteq> Some 401"
  shows "\<not> harmful (NearbyReply c (promise_all r p f))"
  using assms by (cases r; cases p) auto

lemma safe_resume:
  assumes "safe tok st" and "calm env" and "\<not> harmful k"
  shows "safe tok (resume tm env k st)"
proof -
  have near: "\<not> harmful (NearbyReply c (promise_all (reports_reply env t) (panics_reply env t) f))"
    for c t f
    using assms(2) by (intro promise_all_calm) (simp_all add: calm_def)
  show ?thesis
    using assms near
    by (cases k)
       (auto simp: safe_def calm_def on_screen_def await_def await_storage_def
          call_loadAgentProfile_def call_loadTeamLocation_def call_loadNearbyData_def
          return_loadNearbyData_def getAuthToken_def getUserMetadata_def no_token_def
          split: http_result.splits sum.splits caller.splits)
qed

lemma safe_perform:
  assumes "safe tok st" and "calm env" and "next_event st = Some ev"
  shows "safe tok (perform tm env ev st)"
proof (cases ev)
  case (Resume t k)
  let ?st = "at_time t (st\<lparr>tasks := remove1 (t, k) (tasks st)\<rparr>)"
  have "\<not> harmful k"
    using next_event_Resume(1) [of st t k] assms(1,3) Resume by (auto simp: safe_def)
  moreover have "safe tok ?st"
    using assms(1) by (auto simp: safe_def at_time_def on_screen_def dest: notin_set_remove1)
  ultimately show ?thesis
    using Resume assms(2) by (simp add: safe_resume)
next
  case (Tick t)
  then show ?thesis
    using assms(1)
    by (auto simp: safe_def call_loadNearbyData_def await_storage_def await_def on_screen_def)
qed

lemma filter_remove1_other: "\<not> P x \<Longrightarrow> filter P (remove1 x xs) = filter P xs"
  by (induction xs) auto

lemma settle_from_ge: "t \<le> settle_from tm k t"
  by (cases k) (simp_all add: after_storage_def add.assoc trans_le_add1)

lemma resume_init_tasks_other:
  assumes "\<not> init_stage k"
  shows "init_tasks (resume tm env k st) = init_tasks st"
    and "mount_calls (resume tm env k st) = mount_calls st"
  using assms
  by (cases k;
      auto simp: init_tasks_def mount_calls_def on_screen_def await_def await_storage_def
        return_loadNearbyData_def
        split: option.splits http_result.splits sum.splits caller.splits)+

lemma resume_init_stage:
  assumes "init_stage k" and "\<not> harmful k" and "safe tok st"
    and "init_tasks st = []" and "mount_calls st = []"
  shows "init_inv tm (settle_from tm k (clock st)) (resume tm env k st)"
  using assms
  by (cases k)
     (auto simp: init_inv_def init_tasks_def mount_calls_def safe_def on_screen_def await_def
        await_storage_def call_loadAgentProfile_def call_loadTeamLocation_def
        call_loadNearbyData_def getAuthToken_def getUserMetadata_def no_token_def clock_def
        after_storage_def
        split: http_result.splits)

lemma init_inv_perform:
  assumes "future st" and "safe tok st" and "init_inv tm T st" and "next_event st = Some ev"
  shows "init_inv tm T (perform tm env ev st)"
proof (cases ev)
  case (Resume t k)
  let ?st = "at_time t (st\<lparr>tasks := remove1 (t, k) (tasks st)\<rparr>)"
  have mem: "(t, k) \<in> set (tasks st)"
    using next_event_Resume(1) assms(4) Resume by simp
  have later: "clock st \<le> t"
    using mem assms(1) by (auto simp: future_def)
  have unharmful: "\<not> harmful k"
    using mem assms(2) by (auto simp: safe_def)
  have safe': "safe tok ?st"
    using assms(2) by (auto simp: safe_def at_time_def on_screen_def dest: notin_set_remove1)
  have calls': "mount_calls ?st = mount_calls st"
    by (simp add: mount_calls_def at_time_def on_screen_def)
  show ?thesis
  proof (cases "init_stage k")
    case True
    then have "(t, k) \<in> set (init_tasks st)"
      using mem by (simp add: init_tasks_def)
    then have only: "init_tasks st = [(t, k)]" and T: "settle_from tm k t = T"
      and none: "mount_calls st = []"
      using assms(3) by (auto simp: init_inv_def)
    have "init_tasks ?st = remove1 (t, k) (init_tasks st)"
      by (simp add: init_tasks_def at_time_def on_screen_def filter_remove1)
    then have "init_tasks ?st = []"
      using only by simp
    then have "init_inv tm (settle_from tm k (clock ?st)) (resume tm env k ?st)"
      using True unharmful safe' calls' none by (intro resume_init_stage) simp_all
    then show ?thesis
      using Resume T by simp
  next
    case False
    have "init_tasks ?st = init_tasks st"
      using False by (simp add: init_tasks_def at_time_def on_screen_def filter_remove1_other)
    then have "init_tasks (resume tm env k ?st) = init_tasks st"
      and "mount_calls (resume tm env k ?st) = mount_calls st"
      using resume_init_tasks_other [OF False, of tm env ?st] calls' by simp_all
    moreover have "clock st \<le> clock (resume tm env k ?st)"
      using later by simp
    ultimately show ?thesis
      using assms(3) Resume by (auto simp: init_inv_def)
  qed
next
  case (Tick t)
  have "clock st \<le> t"
    using next_event_Tick(1) [of st t] assms(1,4) Tick by (auto simp: future_def)
  then show ?thesis
    using assms(3) Tick
    by (auto simp: init_inv_def init_tasks_def mount_calls_def call_loadNearbyData_def
          await_storage_def await_def on_screen_def clock_def)
qed

lemma fetch_times_simps [simp]:
  "fetch_times p [] = []"
  "fetch_times p ((t, HttpGet q tok) # xs) =
     (if q = p then t # fetch_times p xs else fetch_times p xs)"
  "fetch_times p ((t, HttpPost q b tok) # xs) = fetch_times p xs"
  "fetch_times p ((t, Alert a m) # xs) = fetch_times p xs"
  "fetch_times p ((t, RouterReplace r) # xs) = fetch_times p xs"
  "fetch_times p ((t, RouterPush r d) # xs) = fetch_times p xs"
  "fetch_times p ((t, ClearAuthData) # xs) = fetch_times p xs"
  by (simp_all add: fetch_times_def)

lemma at_time_simps [simp]:
  "tasks (at_time t st) = tasks st"
  "calls (at_time t st) = calls st"
  "effects (screen (at_time t st)) = effects (screen st)"
  "pending_reads (at_time t st) = pending_reads st"
  "fetch_due tm (at_time t st) = fetch_due tm st"
  "fetch_due tm (st\<lparr>tasks := ts\<rparr>) = fetch_due tm st"
  by (simp_all add: at_time_def on_screen_def pending_reads_def fetch_due_def)

lemma resume_balance:
  assumes "nearby_path p" and "safe tok st" and "\<not> harmful k"
    and "balance tm p (if token_read k then {#clock st#} else {#}) st"
  shows "balance tm p {#} (resume tm env k st)"
  using assms
  by (cases k)
     (auto simp: balance_def fetch_due_def pending_reads_def safe_def nearby_path_def
        on_screen_def await_def await_storage_def call_loadAgentProfile_def
        call_loadTeamLocation_def call_loadNearbyData_def return_loadNearbyData_def
        getAuthToken_def clock_def after_storage_def
        split: http_result.splits sum.splits caller.splits)

lemma resume_fetch_bound:
  assumes "\<forall>x\<in>set (fetch_times p (effects (screen st))). x \<le> clock st"
  shows "\<forall>x\<in>set (fetch_times p (effects (screen (resume tm env k st)))). x \<le> clock st"
  using assms
  by (cases k)
     (auto simp: on_screen_def await_def await_storage_def call_loadAgentProfile_def
        call_loadTeamLocation_def call_loadNearbyData_def return_loadNearbyData_def
        session_expired_def clock_def
        split: option.splits http_result.splits sum.splits caller.splits if_splits)

lemma pending_reads_remove1:
  assumes "(t, k) \<in> set (tasks st)"
  shows "mset (pending_reads st) =
           mset (pending_reads (st\<lparr>tasks := remove1 (t, k) (tasks st)\<rparr>))
             + (if token_read k then {#t#} else {#})"
proof (cases "token_read k")
  case True
  then have "(t, k) \<in> set (filter (\<lambda>x. token_read (snd x)) (tasks st))"
    using assms by simp
  then have "mset (filter (\<lambda>x. token_read (snd x)) (tasks st)) =
      add_mset (t, k) (mset (remove1 (t, k) (filter (\<lambda>x. token_read (snd x)) (tasks st))))"
    by simp
  then have "mset (map fst (filter (\<lambda>x. token_read (snd x)) (tasks st))) =
      add_mset t (mset (map fst (remove1 (t, k) (filter (\<lambda>x. token_read (snd x)) (tasks st)))))"
    by (metis fst_conv image_mset_add_mset mset_map)
  then show ?thesis
    using True by (simp add: pending_reads_def filter_remove1)
next
  case False
  then show ?thesis
    by (simp add: pending_reads_def filter_remove1_other)
qed

lemma fetch_inv_perform:
  assumes "nearby_path p" and "future st" and "safe tok st" and "fetch_inv tm p st"
    and "next_event st = Some ev"
  shows "fetch_inv tm p (perform tm env ev st)"
proof (cases ev)
  case (Resume t k)
  let ?st = "at_time t (st\<lparr>tasks := remove1 (t, k) (tasks st)\<rparr>)"
  have mem: "(t, k) \<in> set (tasks st)"
    using next_event_Resume(1) assms(5) Resume by simp
  have later: "clock st \<le> t"
    using mem assms(2) by (auto simp: future_def)
  have unharmful: "\<not> harmful k"
    using mem assms(3) by (auto simp: safe_def)
  have safe': "safe tok ?st"
    using assms(3) by (auto simp: safe_def at_time_def on_screen_def dest: notin_set_remove1)
  have "balance tm p (if token_read k then {#clock ?st#} else {#}) ?st"
    using assms(4) pending_reads_remove1 [OF mem]
    by (simp add: fetch_inv_def balance_def)
  then have bal: "balance tm p {#} (resume tm env k ?st)"
    using assms(1) safe' unharmful by (intro resume_balance) simp_all
  have "\<forall>x\<in>set (fetch_times p (effects (screen ?st))). x \<le> clock ?st"
    using assms(4) later by (fastforce simp: fetch_inv_def)
  then have "\<forall>x\<in>set (fetch_times p (effects (screen (resume tm env k ?st)))). x \<le> clock ?st"
    by (rule resume_fetch_bound)
  then show ?thesis
    using bal Resume by (simp add: fetch_inv_def balance_def)
next
  case (Tick t)
  have "clock st \<le> t"
    using next_event_Tick(1) [of st t] assms(2,5) Tick by (auto simp: future_def)
  then show ?thesis
    using assms(4) Tick
    by (fastforce simp: fetch_inv_def fetch_due_def pending_reads_def call_loadNearbyData_def
          await_storage_def await_def on_screen_def clock_def after_storage_def)
qed

lemma quiet_at_time [simp]: "quiet target (at_time t st) = quiet target st"
  by (simp add: quiet_def at_time_def on_screen_def)

lemma run_result: "\<exists>st'. run tm env target st = at_time target st' \<and> quiet target st'"
proof (induction tm env target st rule: run.induct)
  case (1 tm env target st)
  show ?case
  proof (cases "next_event st")
    case None
    then have "quiet target st"
      using next_event_None [of st] by (simp add: quiet_def)
    then show ?thesis
      using None by (auto simp: run.simps)
  next
    case (Some ev)
    show ?thesis
    proof (cases "event_time ev \<le> target")
      case True
      then show ?thesis
        using "1.IH" [OF Some True] Some by (simp add: run.simps)
    next
      case False
      then have "quiet target st"
        using next_event_late [OF Some] by simp
      then show ?thesis
        using Some False by (auto simp: run.simps)
    qed
  qed
qed

lemma run_quiet: "quiet target (run tm env target st)"
  and run_clock: "clock (run tm env target st) = target"
  using run_result [of tm env target st] by auto

lemma wait_clock: "clock (wait tm env d st) = clock st + d"
  by (simp add: wait_def run_clock)

lemma future_at_time:
  assumes "quiet target st"
  shows "future (at_time target st)"
  using assms by (fastforce simp: future_def quiet_def at_time_def on_screen_def clock_def)

lemma steady_perform:
  assumes "steady tm tok T st" and "calm env" and "next_event st = Some ev"
  shows "steady tm tok T (perform tm env ev st)"
proof -
  from assms(1) have f: "future st" and s: "safe tok st" and i: "init_inv tm T st"
    and r: "fetch_inv tm ''/api/security/nearby-reports'' st"
    and p: "fetch_inv tm ''/api/security/nearby-panics'' st"
    by (simp_all add: steady_def)
  have "nearby_path ''/api/security/nearby-reports''" "nearby_path ''/api/security/nearby-panics''"
    by (simp_all add: nearby_path_def)
  then show ?thesis
    unfolding steady_def
    using future_perform [OF f assms(3)] safe_perform [OF s assms(2,3)]
      init_inv_perform [OF f s i assms(3)] fetch_inv_perform [OF _ f s r assms(3)]
      fetch_inv_perform [OF _ f s p assms(3)]
    by blast
qed

lemma steady_at_time:
  assumes "steady tm tok T st" and "quiet target st" and "clock st \<le> target"
  shows "steady tm tok T (at_time target st)"
proof -
  have "safe tok (at_time target st)"
    using assms(1) by (simp add: steady_def safe_def at_time_def on_screen_def)
  moreover have "init_inv tm T (at_time target st)"
    using assms(1,3) by (auto simp: steady_def init_inv_def init_tasks_def mount_calls_def)
  moreover have "fetch_inv tm p (at_time target st)" if "fetch_inv tm p st" for p
    using that assms(3) by (fastforce simp: fetch_inv_def)
  ultimately show ?thesis
    using assms(1,2) by (simp add: steady_def future_at_time)
qed

lemma steady_run:
  assumes "steady tm tok T st" and "calm env" and "clock st \<le> target"
  shows "steady tm tok T (run tm env target st)"
proof -
  have "steady tm tok T (run tm env target st) \<and> clock (run tm env target st) \<le> target"
  proof (rule run_invariant [where P = "\<lambda>s. steady tm tok T s \<and> clock s \<le> target"])
    show "steady tm tok T st \<and> clock st \<le> target"
      using assms by simp
  next
    fix st' ev
    assume "steady tm tok T st' \<and> clock st' \<le> target" and "next_event st' = Some ev"
      and "event_time ev \<le> target"
    then show "steady tm tok T (perform tm env ev st') \<and> clock (perform tm env ev st') \<le> target"
      using assms(2) clock_perform(2) [of st' ev tm env] steady_perform [of tm tok T st' env ev]
      by (simp add: steady_def)
  next
    fix st'
    assume "steady tm tok T st' \<and> clock st' \<le> target" and "quiet target st'"
    then show "steady tm tok T (at_time target st') \<and> clock (at_time target st') \<le> target"
      by (simp add: steady_at_time)
  qed
  then show ?thesis ..
qed

lemma steady_wait:
  assumes "steady tm tok T st" and "calm env"
  shows "steady tm tok T (wait tm env d st)"
  using assms by (simp add: wait_def steady_run)

lemma user_clock [simp]: "clock (user tm e st) = clock st"
  by (auto simp: user_def press_search_def on_screen_def await_storage_def await_def clock_def
        split: option.splits view.splits user_event.splits)

lemma steady_user:
  assumes "steady tm tok T st" and "e \<noteq> ConfirmLogout"
  shows "steady tm tok T (user tm e st)"
  using assms
  by (cases e)
     (auto simp: steady_def future_def safe_def init_inv_def init_tasks_def mount_calls_def
        fetch_inv_def fetch_due_def pending_reads_def user_def press_search_def on_screen_def
        await_storage_def await_def clock_def
        split: option.splits view.splits)

lemma steady_interact:
  assumes "steady tm tok T st" and "calm env" and "ConfirmLogout \<notin> snd ` set es"
  shows "steady tm tok T (interact tm env es st)"
  using assms
proof (induction es arbitrary: st)
  case Nil
  then show ?case by simp
next
  case (Cons x es)
  obtain d e where x: "x = (d, e)" by (cases x)
  have "e \<noteq> ConfirmLogout"
    using Cons.prems(3) x by force
  then have "steady tm tok T (user tm e (wait tm env d st))"
    using Cons.prems(1,2) by (simp add: steady_user steady_wait)
  then show ?case
    using Cons.IH Cons.prems(2,3) x by simp
qed

lemma interact_clock: "clock (interact tm env es st) = clock st + sum_list (map fst es)"
  by (induction es arbitrary: st) (auto simp: wait_clock)

lemma steady_unmount:
  assumes "steady tm tok T st"
  shows "steady tm tok T (unmount_loop st)"
  using assms
  by (auto simp: steady_def future_def safe_def init_inv_def init_tasks_def mount_calls_def
        fetch_inv_def fetch_due_def pending_reads_def unmount_loop_def unmount_def on_screen_def
        clock_def)

lemma steady_mount:
  assumes "tok \<noteq> []"
  shows "steady tm tok (settle_time tm t0) (mount_loop tm (initial_app (Some tok) (Some ''security'') t0))"
  using assms
  by (auto simp: steady_def future_def safe_def init_inv_def init_tasks_def mount_calls_def
        fetch_inv_def fetch_due_def pending_reads_def mount_loop_def initial_app_def
        await_storage_def await_def clock_def settle_time_def after_storage_def)

lemma timer_calls_simps [simp]:
  "timer_calls (at_time t st) = timer_calls st"
  "timer_calls (st\<lparr>tasks := ts\<rparr>) = timer_calls st"
  "timer_calls (on_screen f st) = timer_calls st"
  "timer_calls (await_storage tm k st) = timer_calls st"
  by (simp_all add: timer_calls_def at_time_def on_screen_def await_storage_def await_def)

lemma interval_simps [simp]:
  "interval (screen (at_time t st)) = interval (screen st)"
  "interval (screen (st\<lparr>tasks := ts\<rparr>)) = interval (screen st)"
  "interval (screen (await_storage tm k st)) = interval (screen st)"
  by (simp_all add: at_time_def on_screen_def await_storage_def await_def)

lemma ticking_perform:
  assumes "future st" and "ticking t0 st" and "next_event st = Some ev"
  shows "ticking t0 (perform tm env ev st)"
proof (cases ev)
  case (Resume t k)
  have "clock st \<le> t"
    using next_event_Resume(1) [of st t k] assms(1,3) Resume by (auto simp: future_def)
  then show ?thesis
    using assms(2) Resume by (simp add: ticking_def)
next
  case (Tick t)
  have due: "interval (screen st) = Some t"
    using next_event_Tick(1) assms(3) Tick by simp
  have "timer_calls (perform tm env ev st) = timer_calls st @ [(t, ByTimer)]"
    using Tick by (simp add: timer_calls_def call_loadNearbyData_def await_storage_def await_def
          on_screen_def clock_def)
  moreover have "interval (screen (perform tm env ev st)) = Some (t + 30000)"
    and "clock (perform tm env ev st) = t"
    using Tick by (simp_all add: call_loadNearbyData_def on_screen_def clock_def await_storage_def
          await_def)
  ultimately show ?thesis
    using assms(2) due by (simp add: ticking_def)
qed

lemma ticking_run:
  assumes "future st" and "ticking t0 st" and "clock st \<le> target"
  shows "future (run tm env target st) \<and> ticking t0 (run tm env target st)"
proof -
  have "(future (run tm env target st) \<and> ticking t0 (run tm env target st))
      \<and> clock (run tm env target st) \<le> target"
  proof (rule run_invariant [where P = "\<lambda>s. (future s \<and> ticking t0 s) \<and> clock s \<le> target"])
    show "(future st \<and> ticking t0 st) \<and> clock st \<le> target"
      using assms by simp
  next
    fix st' ev
    assume "(future st' \<and> ticking t0 st') \<and> clock st' \<le> target" and "next_event st' = Some ev"
      and "event_time ev \<le> target"
    then show "(future (perform tm env ev st') \<and> ticking t0 (perform tm env ev st'))
        \<and> clock (perform tm env ev st') \<le> target"
      using clock_perform(2) [of st' ev tm env]
      by (simp add: future_perform ticking_perform)
  next
    fix st'
    assume "(future st' \<and> ticking t0 st') \<and> clock st' \<le> target" and "quiet target st'"
    then show "(future (at_time target st') \<and> ticking t0 (at_time target st'))
        \<and> clock (at_time target st') \<le> target"
      by (simp add: future_at_time ticking_def)
  qed
  then show ?thesis ..
qed

lemma ticking_user:
  assumes "future st" and "ticking t0 st"
  shows "future (user tm e st) \<and> ticking t0 (user tm e st)"
  using assms
  by (cases e)
     (auto simp: future_def ticking_def timer_calls_def user_def press_search_def on_screen_def
        await_storage_def await_def clock_def
        split: option.splits view.splits)

lemma ticking_interact:
  assumes "future st" and "ticking t0 st"
  shows "future (interact tm env es st) \<and> ticking t0 (interact tm env es st)"
  using assms
proof (induction es arbitrary: st)
  case Nil
  then show ?case by simp
next
  case (Cons x es)
  obtain d e where x: "x = (d, e)" by (cases x)
  have "future (wait tm env d st) \<and> ticking t0 (wait tm env d st)"
    using Cons.prems by (simp add: wait_def ticking_run)
  then have "future (user tm e (wait tm env d st)) \<and> ticking t0 (user tm e (wait tm env d st))"
    using ticking_user by blast
  then show ?case
    using Cons.IH x by simp
qed

lemma ticking_mount:
  "future (mount_loop tm (initial_app tok role t0)) \<and> ticking t0 (mount_loop tm (initial_app tok role t0))"
  by (simp add: future_def ticking_def timer_calls_def mount_loop_def initial_app_def
        await_storage_def await_def clock_def)

lemma mount_clock [simp]: "clock (mount_loop tm (initial_app tok role t0)) = t0"
  by (simp add: mount_loop_def initial_app_def await_storage_def await_def clock_def)

lemma idle_run:
  assumes "interval (screen st) = None"
  shows "interval (screen (run tm env target st)) = None
       \<and> timer_calls (run tm env target st) = timer_calls st"
proof (rule run_invariant [where P = "\<lambda>s. interval (screen s) = None \<and> timer_calls s = timer_calls st"])
  show "interval (screen st) = None \<and> timer_calls st = timer_calls st"
    using assms by simp
next
  fix st' ev
  assume inv: "interval (screen st') = None \<and> timer_calls st' = timer_calls st"
    and ev: "next_event st' = Some ev"
  show "interval (screen (perform tm env ev st')) = None
      \<and> timer_calls (perform tm env ev st') = timer_calls st"
  proof (cases ev)
    case (Resume t k)
    then show ?thesis using inv by simp
  next
    case (Tick t)
    then show ?thesis using inv next_event_Tick(1) [of st' t] ev by simp
  qed
next
  fix st'
  assume "interval (screen st') = None \<and> timer_calls st' = timer_calls st"
  then show "interval (screen (at_time target st')) = None
      \<and> timer_calls (at_time target st') = timer_calls st"
    by simp
qed

lemma ticking_count:
  assumes "ticking t0 st" and "quiet (clock st) st"
  shows "length (timer_calls st) = (clock st - t0) div 30000"
proof -
  let ?n = "length (timer_calls st)"
  have "t0 + 30000 * ?n \<le> clock st" and "clock st < t0 + 30000 * Suc ?n"
    using assms by (auto simp: ticking_def quiet_def)
  then have "30000 * ?n \<le> clock st - t0" and "clock st - t0 < 30000 * Suc ?n"
    by linarith+
  then show ?thesis
    by (simp add: div_nat_eqI)
qed

lemma unmount_clock [simp]: "clock (unmount_loop st) = clock st"
  by (simp add: unmount_loop_def on_screen_def unmount_def clock_def)

lemma filter_mset_all: "(\<forall>x\<in>#A. P x) \<Longrightarrow> filter_mset P A = A"
  by (induction A) auto

lemma filter_mset_none: "(\<forall>x\<in>#A. \<not> P x) \<Longrightarrow> filter_mset P A = {#}"
  by (induction A) auto

lemma steady_mount_calls:
  assumes "steady tm tok T st" and "quiet (clock st) st"
  shows "mount_calls st = (if T \<le> clock st then [(T, ByMount)] else [])"
proof -
  from assms(1) have "init_inv tm T st"
    by (simp add: steady_def)
  then consider (pending) t k where "init_tasks st = [(t, k)]" "settle_from tm k t = T"
      "mount_calls st = []"
    | (called) "mount_calls st = [(T, ByMount)]" "T \<le> clock st"
    by (auto simp: init_inv_def)
  then show ?thesis
  proof cases
    case pending
    then have "(t, k) \<in> set (init_tasks st)"
      by simp
    then have "(t, k) \<in> set (tasks st)"
      by (simp add: init_tasks_def)
    then have "clock st < t"
      using assms(2) by (auto simp: quiet_def)
    then have "clock st < T"
      using settle_from_ge [of t tm k] pending(2) by simp
    then show ?thesis
      using pending(3) by simp
  next
    case called
    then show ?thesis by simp
  qed
qed

lemma steady_fetches:
  assumes "fetch_inv tm p st" and "quiet (clock st) st"
  shows "mset (fetch_times p (effects (screen st))) = filter_mset (\<lambda>x. x \<le> clock st) (fetch_due tm st)"
proof -
  have "\<forall>x\<in>#mset (pending_reads st). \<not> x \<le> clock st"
    using assms(2) by (fastforce simp: quiet_def pending_reads_def)
  moreover have "\<forall>x\<in>#mset (fetch_times p (effects (screen st))). x \<le> clock st"
    using assms(1) by (simp add: fetch_inv_def)
  ultimately show ?thesis
    using assms(1) by (simp add: fetch_inv_def filter_mset_all filter_mset_none)
qed

subsection \<open>The polling schedule\<close>

text \<open>
  Claim C4, as amended. In every mounted lifetime (a mount at \<open>t0\<close>, any sequence
  of text changes, presses of the search and logout buttons and confirmations of the logout,
  an unmount) the interval calls the nearby-data loader once at each of
  \<open>t0 + 30000\<close>, \<open>t0 + 60000\<close>, ... up to the unmount; the unmount cancels the
  interval, which calls nothing afterwards however much time passes. When moreover the
  session guard passes and the token is not cleared during the lifetime (no team-location,
  nearby-data or search request is answered with 401 and the user does not confirm a
  logout), the initialisation of the mount calls the loader exactly once, at the time at
  which its token and metadata reads and its profile and team-location loads have
  settled, which is later than \<open>t0\<close> by the time these take and which the unmount does
  not prevent; and each call issues its two requests once, at the time its own token read
  completes.
\<close>

theorem polling_schedule:
  "timer_calls (lifetime tm env tok role t0 es d d') =
     map (\<lambda>k. (t0 + 30000 * Suc k, ByTimer)) [0..<(sum_list (map fst es) + d) div 30000]
   \<and> interval (screen (lifetime tm env tok role t0 es d d')) = None
   \<and> (\<not> no_token tok \<and> role = Some ''security''
        \<and> (\<forall>t. status (location_reply env t) \<noteq> Some 401)
        \<and> (\<forall>t. status (reports_reply env t) \<noteq> Some 401 \<and> status (panics_reply env t) \<noteq> Some 401)
        \<and> (\<forall>t q. status (search_reply env t q) \<noteq> Some 401)
        \<and> ConfirmLogout \<notin> snd ` set es
      \<longrightarrow> mount_calls (lifetime tm env tok role t0 es d d') =
            (if settle_time tm t0 \<le> t0 + sum_list (map fst es) + d + d'
             then [(settle_time tm t0, ByMount)] else [])
          \<and> mset (fetch_times ''/api/security/nearby-reports''
                    (effects (screen (lifetime tm env tok role t0 es d d')))) =
              filter_mset (\<lambda>x. x \<le> t0 + sum_list (map fst es) + d + d')
                (fetch_due tm (lifetime tm env tok role t0 es d d'))
          \<and> mset (fetch_times ''/api/security/nearby-panics''
                    (effects (screen (lifetime tm env tok role t0 es d d')))) =
              filter_mset (\<lambda>x. x \<le> t0 + sum_list (map fst es) + d + d')
                (fetch_due tm (lifetime tm env tok role t0 es d d')))"
proof -
  let ?M = "mount_loop tm (initial_app tok role t0)"
  let ?I = "interact tm env es ?M"
  let ?W = "wait tm env d ?I"
  let ?U = "unmount_loop ?W"
  let ?L = "wait tm env d' ?U"
  have L: "lifetime tm env tok role t0 es d d' = ?L"
    by (simp add: lifetime_def)
  have clockW: "clock ?W = t0 + sum_list (map fst es) + d"
    by (simp add: wait_clock interact_clock)
  have clockL: "clock ?L = t0 + sum_list (map fst es) + d + d'"
    using clockW by (simp add: wait_clock)
  have quietL: "quiet (clock ?L) ?L"
    unfolding wait_clock by (simp add: wait_def run_quiet)
  have "future ?I \<and> ticking t0 ?I"
    using ticking_mount by (intro ticking_interact) simp_all
  then have W: "ticking t0 ?W"
    by (simp add: wait_def ticking_run)
  have "quiet (clock ?W) ?W"
    unfolding wait_clock by (simp add: wait_def run_quiet)
  then have "length (timer_calls ?W) = (sum_list (map fst es) + d) div 30000"
    using ticking_count [OF W] clockW by simp
  then have "timer_calls ?W =
      map (\<lambda>k. (t0 + 30000 * Suc k, ByTimer)) [0..<(sum_list (map fst es) + d) div 30000]"
    using W by (simp add: ticking_def)
  moreover have "interval (screen ?U) = None" and "timer_calls ?U = timer_calls ?W"
    by (simp_all add: unmount_loop_def unmount_def on_screen_def timer_calls_def)
  ultimately have timer: "timer_calls ?L =
      map (\<lambda>k. (t0 + 30000 * Suc k, ByTimer)) [0..<(sum_list (map fst es) + d) div 30000]"
    and cancelled: "interval (screen ?L) = None"
    using idle_run [of ?U tm env "clock ?U + d'"] by (simp_all add: wait_def)
  have guarded: "mount_calls ?L =
            (if settle_time tm t0 \<le> t0 + sum_list (map fst es) + d + d'
             then [(settle_time tm t0, ByMount)] else [])
          \<and> mset (fetch_times ''/api/security/nearby-reports'' (effects (screen ?L))) =
              filter_mset (\<lambda>x. x \<le> t0 + sum_list (map fst es) + d + d') (fetch_due tm ?L)
          \<and> mset (fetch_times ''/api/security/nearby-panics'' (effects (screen ?L))) =
              filter_mset (\<lambda>x. x \<le> t0 + sum_list (map fst es) + d + d') (fetch_due tm ?L)"
    if token: "\<not> no_token tok" and role: "role = Some ''security''"
      and loc: "\<forall>t. status (location_reply env t) \<noteq> Some 401"
      and near: "\<forall>t. status (reports_reply env t) \<noteq> Some 401 \<and> status (panics_reply env t) \<noteq> Some 401"
      and search: "\<forall>t q. status (search_reply env t q) \<noteq> Some 401"
      and stay: "ConfirmLogout \<notin> snd ` set es"
  proof -
    obtain tk where tk: "tok = Some tk" "tk \<noteq> []"
      using token by (auto simp: no_token_cases)
    have calm: "calm env"
      using loc near search by (simp add: calm_def)
    have "steady tm tk (settle_time tm t0) ?M"
      using tk role by (simp add: steady_mount)
    then have "steady tm tk (settle_time tm t0) ?I"
      using calm stay by (rule steady_interact)
    then have "steady tm tk (settle_time tm t0) ?W"
      using calm by (rule steady_wait)
    then have "steady tm tk (settle_time tm t0) ?U"
      by (rule steady_unmount)
    then have S: "steady tm tk (settle_time tm t0) ?L"
      using calm by (rule steady_wait)
    show ?thesis
      using steady_mount_calls [OF S quietL] S quietL
        steady_fetches [of tm "''/api/security/nearby-reports''" ?L]
        steady_fetches [of tm "''/api/security/nearby-panics''" ?L]
      by (simp add: clockL steady_def)
  qed
  show ?thesis
    unfolding L using timer cancelled guarded by blast
qed

theorem polling_schedule_witness:
  "\<not> no_token (Some ''tok'')
   \<and> ConfirmLogout \<notin> snd ` set [(5000, ChangeText [0x61]), (100, PressSearch)]
   \<and> timer_calls (lifetime demo_timing demo_backend (Some ''tok'') (Some ''security'') 0
        [(5000, ChangeText [0x61]), (100, PressSearch)] 60000 5000) =
       [(30000, ByTimer), (60000, ByTimer)]
   \<and> mount_calls (lifetime demo_timing demo_backend (Some ''tok'') (Some ''security'') 0
        [(5000, ChangeText [0x61]), (100, PressSearch)] 60000 5000) =
       [(4004, ByMount)]"
proof -
  have tok: "\<not> no_token (Some ''tok'')"
    by (simp add: no_token_def)
  have loc: "\<forall>t. status (location_reply demo_backend t) \<noteq> Some 401"
    and near: "\<forall>t. status (reports_reply demo_backend t) \<noteq> Some 401
      \<and> status (panics_reply demo_backend t) \<noteq> Some 401"
    and search: "\<forall>t q. status (search_reply demo_backend t q) \<noteq> Some 401"
    by (simp_all add: demo_backend_def)
  have stay: "ConfirmLogout \<notin> snd ` set [(5000, ChangeText [0x61]), (100, PressSearch)]"
    by simp
  have settle: "settle_time demo_timing 0 = 4004"
    by (simp add: settle_time_def after_storage_def demo_timing_def)
  have "(sum_list (map fst [(5000::nat, ChangeText [0x61]), (100, PressSearch)]) + 60000) div 30000 = 2"
    by simp
  moreover have "[0..<2] = [0, Suc 0]"
    by (simp add: numeral_2_eq_2)
  ultimately have ticks:
    "map (\<lambda>k. (0 + 30000 * Suc k, ByTimer))
       [0..<(sum_list (map fst [(5000::nat, ChangeText [0x61]), (100, PressSearch)]) + 60000) div 30000] =
     [(30000, ByTimer), (60000, ByTimer)]"
    by simp
  show ?thesis
    using tok stay loc near search
      polling_schedule [of demo_timing demo_backend "Some ''tok''" "Some ''security''" 0
        "[(5000, ChangeText [0x61]), (100, PressSearch)]" 60000 5000]
    unfolding ticks settle by simp
qed

text \<open>
  The claim as stated fails in two ways. With a guard that passes, a profile and a
  team-location request of two seconds each and an unmount one second after the mount,
  the only call of the loader is at 4004 ms and its requests go out at 4005 ms: not at the
  mount, and after the unmount. With a stored token and the role \<open>user\<close> the guard
  rejects the mount, and the loader is called by the interval only, at 30 s and at 60 s.
\<close>

theorem fetch_after_unmount_counterexample:
  "calls (lifetime demo_timing demo_backend (Some ''tok'') (Some ''security'') 0 [] 1000 9000) =
     [(4004, ByMount)]
   \<and> fetch_times ''/api/security/nearby-reports''
       (effects (screen (lifetime demo_timing demo_backend (Some ''tok'') (Some ''security'') 0 [] 1000 9000))) =
     [4005]
   \<and> calls (lifetime demo_timing demo_backend (Some ''tok'') (Some ''user'') 0 [] 65000 0) =
     [(30000, ByTimer), (60000, ByTimer)]"
  by (simp add: lifetime_def wait_def mount_loop_def unmount_loop_def unmount_def
        initial_app_def demo_timing_def demo_backend_def next_event_def on_screen_def await_def
        await_storage_def call_loadAgentProfile_def call_loadTeamLocation_def
        call_loadNearbyData_def return_loadNearbyData_def clock_def at_time_def getAuthToken_def
        getUserMetadata_def no_token_def profile_settled_def location_resolved_def
        nearby_resolved_def opt_field_def or_default_def first_name_def demo_location_def
        Let_def run.simps fetch_times_def)

subsection \<open>Without latency the event loop is the sequence of atomic handlers\<close>

text \<open>
  When no request and no storage read takes any time, the initialisation started by a
  mount has run to its end at the instant of the mount, and a tick of the interval has
  run the nearby-data loader to its end at the instant of the tick: the screen is then the
  one that \<open>mount\<close> and a firing of \<open>fire\<close> compute in one step.
\<close>

lemmas step_defs = next_event_def at_time_def on_screen_def await_def await_storage_def
  call_loadAgentProfile_def call_loadTeamLocation_def call_loadNearbyData_def
  return_loadNearbyData_def clock_def finish_def

lemma instant_simps [simp]:
  "storage_delay instant t = 0"
  "profile_delay instant t = 0"
  "location_delay instant t = 0"
  "nearby_delay instant t = 0"
  "search_delay instant t = 0"
  by (simp_all add: instant_def)

lemma drain_idle:
  assumes "now a = t" and "interval a = Some due" and "t < due"
  shows "screen (run instant env t \<lparr>screen = a, tasks = [], calls = cs\<rparr>) = a"
  using assms(2,3) assms(1) [symmetric] by (subst run.simps) (simp add: step_defs)

lemma drain_NearbyClear:
  assumes "now a = t" and "interval a = Some due" and "t < due"
  shows "screen (run instant env t \<lparr>screen = a, tasks = [(t, NearbyClear c)], calls = cs\<rparr>) =
           finish c (session_expired a)"
  using assms(2,3) assms(1) [symmetric]
  by (subst run.simps)
     (cases c; simp add: step_defs drain_idle session_expired_def)

lemma drain_NearbyReply:
  assumes "now a = t" and "interval a = Some due" and "t < due"
  shows "screen (run instant env t \<lparr>screen = a, tasks = [(t, NearbyReply c res)], calls = cs\<rparr>) =
           finish c (case res of
                       Inr (rd, pd) \<Rightarrow> nearby_resolved rd pd a
                     | Inl e \<Rightarrow> if status e = Some 401 then session_expired a else a)"
  using assms(2,3) assms(1) [symmetric]
  by (subst run.simps)
     (cases c; cases res;
      auto simp: step_defs drain_idle drain_NearbyClear nearby_resolved_def)

lemma drain_NearbyToken:
  assumes "now a = t" and "interval a = Some due" and "t < due"
  shows "screen (run instant env t \<lparr>screen = a, tasks = [(t, NearbyToken c)], calls = cs\<rparr>) =
           finish c (loadNearbyData env a)"
  using assms(2,3) assms(1) [symmetric]
  by (subst run.simps)
     (cases c;
      auto simp: step_defs drain_idle drain_NearbyReply loadNearbyData_def getAuthToken_def
        nearby_resolved_def session_expired_def Let_def
        split: option.splits sum.splits)

lemma loader_frame [simp]:
  "now (session_expired a) = now a"
  "interval (session_expired a) = interval a"
  "authToken (session_expired a) = None"
  "now (location_resolved d a) = now a"
  "interval (location_resolved d a) = interval a"
  "now (profile_settled r a) = now a"
  "interval (profile_settled r a) = interval a"
  by (auto simp: session_expired_def location_resolved_def profile_settled_def Let_def
        split: http_result.splits option.splits json.splits)

lemma drain_LocationClear:
  assumes "now a = t" and "interval a = Some due" and "t < due"
  shows "screen (run instant env t \<lparr>screen = a, tasks = [(t, LocationClear)], calls = cs\<rparr>) =
           (loadNearbyData env (session_expired a))\<lparr>loading := False\<rparr>"
  using assms(2,3) assms(1) [symmetric]
  by (subst run.simps) (simp add: step_defs drain_NearbyToken)

lemma drain_LocationReply:
  assumes "now a = t" and "interval a = Some due" and "t < due"
  shows "screen (run instant env t \<lparr>screen = a, tasks = [(t, LocationReply r)], calls = cs\<rparr>) =
           (loadNearbyData env
              (case r of
                 Ok d \<Rightarrow> location_resolved d a
               | e \<Rightarrow> if status e = Some 401 then session_expired a else a))\<lparr>loading := False\<rparr>"
  using assms(2,3) assms(1) [symmetric]
  by (subst run.simps)
     (cases r; simp add: step_defs drain_NearbyToken drain_LocationClear)

lemma drain_LocationToken:
  assumes "now a = t" and "interval a = Some due" and "t < due"
  shows "screen (run instant env t \<lparr>screen = a, tasks = [(t, LocationToken)], calls = cs\<rparr>) =
           (loadNearbyData env (loadTeamLocation env a))\<lparr>loading := False\<rparr>"
  using assms(2,3) assms(1) [symmetric]
  by (subst run.simps)
     (auto simp: step_defs drain_NearbyToken drain_LocationReply loadTeamLocation_def
        getAuthToken_def location_resolved_def session_expired_def Let_def
        split: option.splits http_result.splits)

lemma drain_ProfileReply:
  assumes "now a = t" and "interval a = Some due" and "t < due"
  shows "screen (run instant env t \<lparr>screen = a, tasks = [(t, ProfileReply r)], calls = cs\<rparr>) =
           (loadNearbyData env (loadTeamLocation env (profile_settled r a)))\<lparr>loading := False\<rparr>"
  using assms(2,3) assms(1) [symmetric]
  by (subst run.simps) (simp add: step_defs drain_LocationToken)

lemma drain_ProfileToken:
  assumes "now a = t" and "interval a = Some due" and "t < due"
  shows "screen (run instant env t \<lparr>screen = a, tasks = [(t, ProfileToken)], calls = cs\<rparr>) =
           (loadNearbyData env (loadTeamLocation env (loadAgentProfile env a)))\<lparr>loading := False\<rparr>"
  using assms(2,3) assms(1) [symmetric]
  by (subst run.simps)
     (auto simp: step_defs drain_LocationToken drain_ProfileReply loadAgentProfile_def
        getAuthToken_def profile_settled_def Let_def
        split: option.splits http_result.splits json.splits)

lemma drain_InitMetadata:
  assumes "now a = t" and "interval a = Some due" and "t < due"
  shows "screen (run instant env t \<lparr>screen = a, tasks = [(t, InitMetadata)], calls = cs\<rparr>) =
           (if getUserMetadata a \<noteq> Some ''security''
            then emit (RouterReplace ''/auth/login'')
                   (emit (Alert ''Access Denied'' (JStr (ascii ''Security access required''))) a)
            else (loadNearbyData env (loadTeamLocation env (loadAgentProfile env a)))\<lparr>loading := False\<rparr>)"
  using assms(2,3) assms(1) [symmetric]
  by (subst run.simps) (simp add: step_defs drain_ProfileToken drain_idle)

lemma drain_InitToken:
  assumes "now a = t" and "interval a = Some due" and "t < due"
  shows "screen (run instant env t \<lparr>screen = a, tasks = [(t, InitToken)], calls = cs\<rparr>) =
           (if no_token (getAuthToken a) then emit (RouterReplace ''/auth/login'') a
            else if getUserMetadata a \<noteq> Some ''security''
            then emit (RouterReplace ''/auth/login'')
                   (emit (Alert ''Access Denied'' (JStr (ascii ''Security access required''))) a)
            else (loadNearbyData env (loadTeamLocation env (loadAgentProfile env a)))\<lparr>loading := False\<rparr>)"
  using assms(2,3) assms(1) [symmetric]
  by (subst run.simps) (simp add: step_defs drain_InitMetadata drain_idle)

lemma mount_frame:
  "interval (loadAgentProfile env s) = interval s"
  "interval (loadTeamLocation env s) = interval s"
  "interval (loadNearbyData env s) = interval s"
  by (simp_all add: loadAgentProfile_frame loadTeamLocation_frame loadNearbyData_frame)

lemma loaders_set_interval:
  "loadAgentProfile env (s\<lparr>interval := v\<rparr>) = (loadAgentProfile env s)\<lparr>interval := v\<rparr>"
  "loadTeamLocation env (s\<lparr>interval := v\<rparr>) = (loadTeamLocation env s)\<lparr>interval := v\<rparr>"
  "loadNearbyData env (s\<lparr>interval := v\<rparr>) = (loadNearbyData env s)\<lparr>interval := v\<rparr>"
  by (auto simp: loadAgentProfile_def loadTeamLocation_def loadNearbyData_def getAuthToken_def
        emit_def clearAuthData_def Let_def
        split: option.splits http_result.splits json.splits sum.splits)

lemma instant_mount:
  "screen (wait instant env 0 (mount_loop instant s)) = mount env s"
proof -
  let ?a = "s\<lparr>loading := True, interval := Some (now s + 30000)\<rparr>"
  have "screen (run instant env (now s) \<lparr>screen = ?a, tasks = [(now s, InitToken)], calls = []\<rparr>) =
      (if no_token (getAuthToken ?a) then emit (RouterReplace ''/auth/login'') ?a
       else if getUserMetadata ?a \<noteq> Some ''security''
       then emit (RouterReplace ''/auth/login'')
              (emit (Alert ''Access Denied'' (JStr (ascii ''Security access required''))) ?a)
       else (loadNearbyData env (loadTeamLocation env (loadAgentProfile env ?a)))\<lparr>loading := False\<rparr>)"
    by (rule drain_InitToken [where due = "now s + 30000"]) simp_all
  then show ?thesis
    by (simp add: wait_def mount_loop_def step_defs mount_def initializeScreen_def Let_def
        getAuthToken_def getUserMetadata_def emit_def loaders_set_interval)
qed

lemma instant_tick:
  assumes "tasks st = []"
  shows "screen (run instant env due (perform instant env (Tick due) st)) =
           (loadNearbyData env ((screen st)\<lparr>now := due\<rparr>))\<lparr>interval := Some (due + 30000)\<rparr>"
proof -
  let ?a = "(screen st)\<lparr>now := due, interval := Some (due + 30000)\<rparr>"
  have "perform instant env (Tick due) st =
      \<lparr>screen = ?a, tasks = [(due, NearbyToken ByTimer)], calls = calls st @ [(due, ByTimer)]\<rparr>"
    using assms by (simp add: step_defs)
  moreover have "screen (run instant env due
      \<lparr>screen = ?a, tasks = [(due, NearbyToken ByTimer)], calls = calls st @ [(due, ByTimer)]\<rparr>) =
      finish ByTimer (loadNearbyData env ?a)"
    by (rule drain_NearbyToken [where due = "due + 30000"]) simp_all
  ultimately show ?thesis
    by (simp add: finish_def loaders_set_interval)
qed

end
